theory Spec2Isabelle
  imports Complex_Main
begin

section \<open>Values and Python built-ins\<close>

text \<open>
  A Python float is a finite number, one of the two infinities, or NaN. Finite doubles are
  embedded as the reals they denote: rounding and overflow are not modelled, the special
  values are. HOL equality on \<open>NaN\<close> is identity of the marker (Python's \<open>nan != nan\<close>
  is not what \<open>=\<close> means here).
\<close>

datatype pyfloat = Fin real | PInf | NInf | NaN

fun isnan :: "pyfloat \<Rightarrow> bool" where
  "isnan NaN = True"
| "isnan _ = False"

fun isfinite :: "pyfloat \<Rightarrow> bool" where
  "isfinite (Fin _) = True"
| "isfinite _ = False"

datatype py_error = ValueError | IndexError | KeyError

text \<open>
  Strings are sequences of code points below 256. \<open>isspace\<close> is Python's
  \<open>str.isspace\<close> on that range.
\<close>

definition isspace :: "char \<Rightarrow> bool" where
  "isspace c = (c \<in> set [CHR 0x09, CHR 0x0A, CHR 0x0B, CHR 0x0C, CHR 0x0D,
                            CHR 0x1C, CHR 0x1D, CHR 0x1E, CHR 0x1F, CHR 0x20,
                            CHR 0x85, CHR 0xA0])"

text \<open>\<open>s.strip()\<close>: leading and trailing whitespace removed.\<close>

definition str_strip :: "string \<Rightarrow> string" where
  "str_strip s = rev (dropWhile isspace (rev (dropWhile isspace s)))"

text \<open>\<open>s.split()\<close>: the maximal runs of non-whitespace characters, in order.\<close>

fun split_acc :: "string \<Rightarrow> string \<Rightarrow> string list" where
  "split_acc cur [] = (if cur = [] then [] else [cur])"
| "split_acc cur (c # cs) =
     (if isspace c then (if cur = [] then split_acc [] cs else cur # split_acc [] cs)
      else split_acc (cur @ [c]) cs)"

definition str_split :: "string \<Rightarrow> string list" where
  "str_split s = split_acc [] s"

text \<open>\<open>xs.index(x)\<close>: the first position of \<open>x\<close>, \<open>ValueError\<close> when absent.\<close>

fun list_index :: "'a \<Rightarrow> 'a list \<Rightarrow> py_error + nat" where
  "list_index x [] = Inl ValueError"
| "list_index x (y # ys) =
     (if x = y then Inr 0
      else (case list_index x ys of Inl e \<Rightarrow> Inl e | Inr n \<Rightarrow> Inr (Suc n)))"

text \<open>\<open>xs[i]\<close> for a non-negative \<open>i\<close>: \<open>IndexError\<close> out of range.\<close>

definition list_get :: "'a list \<Rightarrow> nat \<Rightarrow> py_error + 'a" where
  "list_get xs i = (if i < length xs then Inr (xs ! i) else Inl IndexError)"

text \<open>
  The built-ins \<open>int(s)\<close> and \<open>float(s)\<close> are parameters of the model, of types
  \<open>string \<Rightarrow> int option\<close> and \<open>string \<Rightarrow> pyfloat option\<close>, \<open>None\<close> standing for the
  \<open>ValueError\<close> they raise. Every theorem holds for whatever the two conversions accept.
  The two functions below are a fragment of them (an optional sign and decimal digits; a
  decimal point; \<open>nan\<close> and \<open>inf\<close>), used to run the model on concrete inputs.
\<close>

definition is_digit :: "char \<Rightarrow> bool" where
  "is_digit c = (48 \<le> (of_char c :: nat) \<and> (of_char c :: nat) \<le> 57)"

definition digit_val :: "char \<Rightarrow> nat" where
  "digit_val c = of_char c - 48"

definition digits_val :: "string \<Rightarrow> nat" where
  "digits_val s = foldl (\<lambda>n c. 10 * n + digit_val c) 0 s"

definition all_digits :: "string \<Rightarrow> bool" where
  "all_digits s = (s \<noteq> [] \<and> list_all is_digit s)"

fun ex_int :: "string \<Rightarrow> int option" where
  "ex_int [] = None"
| "ex_int (c # cs) =
     (if c = CHR ''-'' then (if all_digits cs then Some (- int (digits_val cs)) else None)
      else if c = CHR ''+'' then (if all_digits cs then Some (int (digits_val cs)) else None)
      else if all_digits (c # cs) then Some (int (digits_val (c # cs))) else None)"

definition ex_unsigned :: "string \<Rightarrow> real option" where
  "ex_unsigned s =
     (let ip = takeWhile is_digit s; r = dropWhile is_digit s in
      if r = [] then (if ip = [] then None else Some (real (digits_val ip)))
      else if hd r = CHR ''.'' \<and> list_all is_digit (tl r) \<and> (ip \<noteq> [] \<or> tl r \<noteq> [])
        then Some (real (digits_val ip) + real (digits_val (tl r)) / 10 ^ length (tl r))
      else None)"

definition ex_float :: "string \<Rightarrow> pyfloat option" where
  "ex_float s =
     (if s = ''nan'' then Some NaN
      else if s = ''inf'' then Some PInf
      else if s = ''-inf'' then Some NInf
      else (case s of
              [] \<Rightarrow> None
            | c # cs \<Rightarrow>
                if c = CHR ''-'' then map_option (\<lambda>x. Fin (- x)) (ex_unsigned cs)
                else if c = CHR ''+'' then map_option Fin (ex_unsigned cs)
                else map_option Fin (ex_unsigned s)))"

section \<open>The reference CSV: \<open>parse_tssb_csv\<close>\<close>

record csv_data =
  csv_date :: "int list"
  csv_time :: "int list"
  TGT_115 :: "pyfloat list"
  TGT_315 :: "pyfloat list"
  TGT_555 :: "pyfloat list"

text \<open>\<open>header.index(name) if name in header else None\<close>\<close>

definition column_index :: "string \<Rightarrow> string list \<Rightarrow> nat option" where
  "column_index name header =
     (if name \<in> set header
      then (case list_index name header of Inl e \<Rightarrow> None | Inr n \<Rightarrow> Some n)
      else None)"

text \<open>Truthiness of an index that is \<open>None\<close> or a number: \<open>None\<close> and \<open>0\<close> are falsy.\<close>

fun truthy :: "nat option \<Rightarrow> bool" where
  "truthy None = False"
| "truthy (Some n) = (n \<noteq> 0)"

text \<open>\<open>filter(None, xs)\<close> keeps the truthy entries.\<close>

definition filter_None :: "nat option list \<Rightarrow> nat list" where
  "filter_None xs = map the (filter truthy xs)"

text \<open>\<open>max(xs)\<close>: \<open>ValueError\<close> on the empty sequence.\<close>

definition py_max :: "nat list \<Rightarrow> py_error + nat" where
  "py_max xs = (if xs = [] then Inl ValueError else Inr (Max (set xs)))"

text \<open>
  \<open>try: col.append(float(parts[idx]))  except: col.append(np.nan)\<close>, guarded by
  \<open>if idx:\<close>. The bare \<open>except\<close> catches the conversion's \<open>ValueError\<close> and an
  \<open>IndexError\<close> of \<open>parts[idx]\<close> alike.
\<close>

definition append_cell ::
  "(string \<Rightarrow> pyfloat option) \<Rightarrow> nat option \<Rightarrow> string list \<Rightarrow> pyfloat list \<Rightarrow> pyfloat list" where
  "append_cell pfloat idx parts col =
     (if truthy idx
      then (case list_get parts (the idx) of
              Inl e \<Rightarrow> col @ [NaN]
            | Inr s \<Rightarrow> (case pfloat s of None \<Rightarrow> col @ [NaN] | Some v \<Rightarrow> col @ [v]))
      else col)"

text \<open>The body of \<open>for line in f\<close>, on the lists collected so far.\<close>

definition parse_line ::
  "(string \<Rightarrow> int option) \<Rightarrow> (string \<Rightarrow> pyfloat option) \<Rightarrow>
   nat option \<Rightarrow> nat option \<Rightarrow> nat option \<Rightarrow> string \<Rightarrow> csv_data \<Rightarrow> py_error + csv_data" where
  "parse_line pint pfloat i115 i315 i555 line acc =
     (let parts = str_split (str_strip line) in
      case py_max (filter_None [i115, i315, i555]) of
        Inl e \<Rightarrow> Inl e
      | Inr m \<Rightarrow>
          if length parts > m then
            (case list_get parts 0 of
               Inl e \<Rightarrow> Inl e
             | Inr s0 \<Rightarrow>
                 (case pint s0 of
                    None \<Rightarrow> Inl ValueError
                  | Some d \<Rightarrow>
                      (case list_get parts 1 of
                         Inl e \<Rightarrow> Inl e
                       | Inr s1 \<Rightarrow>
                           (case pint s1 of
                              None \<Rightarrow> Inl ValueError
                            | Some t \<Rightarrow>
                                Inr \<lparr> csv_date = csv_date acc @ [d],
                                      csv_time = csv_time acc @ [t],
                                      TGT_115 = append_cell pfloat i115 parts (TGT_115 acc),
                                      TGT_315 = append_cell pfloat i315 parts (TGT_315 acc),
                                      TGT_555 = append_cell pfloat i555 parts (TGT_555 acc) \<rparr>))))
          else Inr acc)"

fun parse_lines ::
  "(string \<Rightarrow> int option) \<Rightarrow> (string \<Rightarrow> pyfloat option) \<Rightarrow>
   nat option \<Rightarrow> nat option \<Rightarrow> nat option \<Rightarrow> string list \<Rightarrow> csv_data \<Rightarrow> py_error + csv_data" where
  "parse_lines pint pfloat i115 i315 i555 [] acc = Inr acc"
| "parse_lines pint pfloat i115 i315 i555 (line # rest) acc =
     (case parse_line pint pfloat i115 i315 i555 line acc of
        Inl e \<Rightarrow> Inl e
      | Inr acc' \<Rightarrow> parse_lines pint pfloat i115 i315 i555 rest acc')"

text \<open>
  The file is the list of its lines. \<open>f.readline()\<close> on an empty file is the empty string.
\<close>

definition read_header :: "string list \<Rightarrow> string list" where
  "read_header file = str_split (str_strip (case file of [] \<Rightarrow> [] | h # _ \<Rightarrow> h))"

definition parse_tssb_csv ::
  "(string \<Rightarrow> int option) \<Rightarrow> (string \<Rightarrow> pyfloat option) \<Rightarrow> string list \<Rightarrow> py_error + csv_data" where
  "parse_tssb_csv pint pfloat file =
     (let header = read_header file;
          tgt_115_idx = column_index ''TGT_115'' header;
          tgt_315_idx = column_index ''TGT_315'' header;
          tgt_555_idx = column_index ''TGT_555'' header
      in parse_lines pint pfloat tgt_115_idx tgt_315_idx tgt_555_idx (tl file)
           \<lparr> csv_date = [], csv_time = [], TGT_115 = [], TGT_315 = [], TGT_555 = [] \<rparr>)"

section \<open>Alignment by (date, time): \<open>align_data\<close>\<close>

record ohlcv_data =
  ohlcv_date :: "int list"
  ohlcv_time :: "int list"
  ohlcv_open :: "pyfloat list"
  ohlcv_high :: "pyfloat list"
  ohlcv_low :: "pyfloat list"
  ohlcv_close :: "pyfloat list"
  ohlcv_volume :: "pyfloat list"

text \<open>
  \<open>for i, (date, time) in enumerate(zip(...)): ohlcv_map[(date, time)] = i\<close>, on the
  list of the zipped pairs. A later pair overwrites the entry of an equal earlier one.
\<close>

definition build_map :: "(int \<times> int) list \<Rightarrow> (int \<times> int \<rightharpoonup> nat)" where
  "build_map keys = fold (\<lambda>(i, key) m. m(key \<mapsto> i)) (enumerate 0 keys) Map.empty"

text \<open>
  \<open>if i < len(col): aligned[ohlcv_idx] = col[i]\<close>. Writing a numpy array out of range
  raises \<open>IndexError\<close>.
\<close>

definition place :: "pyfloat list \<Rightarrow> nat \<Rightarrow> nat \<Rightarrow> pyfloat list \<Rightarrow> py_error + pyfloat list" where
  "place col i ohlcv_idx aligned =
     (if i < length col
      then (if ohlcv_idx < length aligned then Inr (aligned[ohlcv_idx := col ! i])
            else Inl IndexError)
      else Inr aligned)"

text \<open>The body of the second loop of \<open>align_data\<close>, for row \<open>i\<close> of the CSV data.\<close>

definition align_row ::
  "(int \<times> int \<rightharpoonup> nat) \<Rightarrow> csv_data \<Rightarrow> nat \<times> (int \<times> int) \<Rightarrow>
   pyfloat list \<times> pyfloat list \<times> pyfloat list \<Rightarrow>
   py_error + (pyfloat list \<times> pyfloat list \<times> pyfloat list)" where
  "align_row ohlcv_map csv = (\<lambda>(i, key) (aligned_115, aligned_315, aligned_555).
     case ohlcv_map key of
       None \<Rightarrow> Inr (aligned_115, aligned_315, aligned_555)
     | Some ohlcv_idx \<Rightarrow>
         (case place (TGT_115 csv) i ohlcv_idx aligned_115 of
            Inl e \<Rightarrow> Inl e
          | Inr a115 \<Rightarrow>
              (case place (TGT_315 csv) i ohlcv_idx aligned_315 of
                 Inl e \<Rightarrow> Inl e
               | Inr a315 \<Rightarrow>
                   (case place (TGT_555 csv) i ohlcv_idx aligned_555 of
                      Inl e \<Rightarrow> Inl e
                    | Inr a555 \<Rightarrow> Inr (a115, a315, a555)))))"

fun align_rows ::
  "(int \<times> int \<rightharpoonup> nat) \<Rightarrow> csv_data \<Rightarrow> (nat \<times> (int \<times> int)) list \<Rightarrow>
   pyfloat list \<times> pyfloat list \<times> pyfloat list \<Rightarrow>
   py_error + (pyfloat list \<times> pyfloat list \<times> pyfloat list)" where
  "align_rows ohlcv_map csv [] st = Inr st"
| "align_rows ohlcv_map csv (r # rs) st =
     (case align_row ohlcv_map csv r st of
        Inl e \<Rightarrow> Inl e
      | Inr st' \<Rightarrow> align_rows ohlcv_map csv rs st')"

definition align_data ::
  "ohlcv_data \<Rightarrow> csv_data \<Rightarrow> py_error + (pyfloat list \<times> pyfloat list \<times> pyfloat list)" where
  "align_data ohlcv csv =
     (let ohlcv_map = build_map (zip (ohlcv_date ohlcv) (ohlcv_time ohlcv));
          n = length (ohlcv_date ohlcv)
      in align_rows ohlcv_map csv (enumerate 0 (zip (csv_date csv) (csv_time csv)))
           (replicate n NaN, replicate n NaN, replicate n NaN))"

text \<open>The three indicator fields, to speak of any one of them.\<close>

datatype tgt = T115 | T315 | T555

fun tgt_column :: "csv_data \<Rightarrow> tgt \<Rightarrow> pyfloat list" where
  "tgt_column csv T115 = TGT_115 csv"
| "tgt_column csv T315 = TGT_315 csv"
| "tgt_column csv T555 = TGT_555 csv"

fun tgt_aligned :: "pyfloat list \<times> pyfloat list \<times> pyfloat list \<Rightarrow> tgt \<Rightarrow> pyfloat list" where
  "tgt_aligned (a115, a315, a555) T115 = a115"
| "tgt_aligned (a115, a315, a555) T315 = a315"
| "tgt_aligned (a115, a315, a555) T555 = a555"

fun tgt_name :: "tgt \<Rightarrow> string" where
  "tgt_name T115 = ''TGT_115''"
| "tgt_name T315 = ''TGT_315''"
| "tgt_name T555 = ''TGT_555''"

fun tgt_pick :: "'a \<Rightarrow> 'a \<Rightarrow> 'a \<Rightarrow> tgt \<Rightarrow> 'a" where
  "tgt_pick a b c T115 = a"
| "tgt_pick a b c T315 = b"
| "tgt_pick a b c T555 = c"

text \<open>
  To speak of what \<open>parse_tssb_csv\<close> returns: the index stored for a column, the data
  lines that pass the length test (split into their parts), the value collected for a
  cell, and a file with a cell that is no number.
\<close>

definition header_index :: "string list \<Rightarrow> tgt \<Rightarrow> nat option" where
  "header_index file f = column_index (tgt_name f) (read_header file)"

definition accepted_rows :: "nat \<Rightarrow> string list \<Rightarrow> string list list" where
  "accepted_rows m lines =
     filter (\<lambda>parts. length parts > m) (map (\<lambda>line. str_split (str_strip line)) lines)"

definition float_cell :: "(string \<Rightarrow> pyfloat option) \<Rightarrow> nat \<Rightarrow> string list \<Rightarrow> pyfloat" where
  "float_cell pfloat k parts = (case pfloat (parts ! k) of None \<Rightarrow> NaN | Some v \<Rightarrow> v)"

definition malformed_file :: "string list" where
  "malformed_file = [''Date Time TGT_315 TGT_115'', ''1 2 3.5 nan'', ''4 5 abc -0.25'', ''7'']"

text \<open>
  The effect of the loop on one of the three arrays, where no write is out of range.
\<close>

definition align_col ::
  "(int \<times> int \<rightharpoonup> nat) \<Rightarrow> pyfloat list \<Rightarrow> (nat \<times> (int \<times> int)) list \<Rightarrow> pyfloat list \<Rightarrow> pyfloat list" where
  "align_col ohlcv_map col rows aligned =
     fold (\<lambda>(i, key) a. case ohlcv_map key of
                            None \<Rightarrow> a
                          | Some ohlcv_idx \<Rightarrow> if i < length col then a[ohlcv_idx := col ! i] else a)
          rows aligned"

text \<open>The keys of the bars and of the reference rows, as the two loops zip them.\<close>

definition bar_keys :: "ohlcv_data \<Rightarrow> (int \<times> int) list" where
  "bar_keys ohlcv = zip (ohlcv_date ohlcv) (ohlcv_time ohlcv)"

definition row_keys :: "csv_data \<Rightarrow> (int \<times> int) list" where
  "row_keys csv = zip (csv_date csv) (csv_time csv)"

text \<open>Concrete data to run the alignment on.\<close>

definition example_ohlcv :: ohlcv_data where
  "example_ohlcv =
     \<lparr> ohlcv_date = [20240101, 20240101, 20240101], ohlcv_time = [930, 931, 932],
       ohlcv_open = [Fin 1, Fin 1, Fin 1], ohlcv_high = [Fin 1, Fin 1, Fin 1],
       ohlcv_low = [Fin 1, Fin 1, Fin 1], ohlcv_close = [Fin 1, Fin 1, Fin 1],
       ohlcv_volume = [Fin 1, Fin 1, Fin 1] \<rparr>"

definition example_csv :: csv_data where
  "example_csv =
     \<lparr> csv_date = [20240101, 20240101, 20240102], csv_time = [930, 932, 930],
       TGT_115 = [Fin 1, Fin 3, Fin 9], TGT_315 = [], TGT_555 = [] \<rparr>"

definition duplicate_csv :: csv_data where
  "duplicate_csv =
     \<lparr> csv_date = [20240101, 20240101], csv_time = [930, 930],
       TGT_115 = [Fin 1, Fin 2], TGT_315 = [], TGT_555 = [] \<rparr>"

definition duplicate_ohlcv :: ohlcv_data where
  "duplicate_ohlcv =
     \<lparr> ohlcv_date = [20240101, 20240101, 20240101], ohlcv_time = [930, 931, 930],
       ohlcv_open = [Fin 1, Fin 1, Fin 1], ohlcv_high = [Fin 1, Fin 1, Fin 1],
       ohlcv_low = [Fin 1, Fin 1, Fin 1], ohlcv_close = [Fin 1, Fin 1, Fin 1],
       ohlcv_volume = [Fin 1, Fin 1, Fin 1] \<rparr>"

section \<open>The annotated log: \<open>extract_computed_values\<close>\<close>

fun starts_with :: "string \<Rightarrow> string \<Rightarrow> bool" where
  "starts_with [] s = True"
| "starts_with (p # ps) [] = False"
| "starts_with (p # ps) (c # cs) = (p = c \<and> starts_with ps cs)"

text \<open>\<open>sub in s\<close> on strings.\<close>

fun str_contains :: "string \<Rightarrow> string \<Rightarrow> bool" where
  "str_contains sub [] = (sub = [])"
| "str_contains sub (c # cs) = (starts_with sub (c # cs) \<or> str_contains sub cs)"

text \<open>\<open>text.split('\n')\<close>: never empty, the empty text gives one empty line.\<close>

fun split_lines_acc :: "string \<Rightarrow> string \<Rightarrow> string list" where
  "split_lines_acc cur [] = [cur]"
| "split_lines_acc cur (c # cs) =
     (if c = CHR 0x0A then cur # split_lines_acc [] cs else split_lines_acc (cur @ [c]) cs)"

definition split_lines :: "string \<Rightarrow> string list" where
  "split_lines s = split_lines_acc [] s"

definition is_header :: "string \<Rightarrow> string \<Rightarrow> bool" where
  "is_header indicator_name line = (str_contains indicator_name line \<and> str_contains ''Up='' line)"

definition is_summary :: "string \<Rightarrow> bool" where
  "is_summary line = str_contains ''Summary:'' line"

text \<open>
  The data line: the guard \<open>'Bar' in line and 'Expected' in line\<close>, at least four parts,
  and the three conversions inside \<open>try\<close>. \<open>data_entry\<close> is the pair written into the
  dictionary, \<open>None\<close> when the line writes nothing.
\<close>

definition data_entry ::
  "(string \<Rightarrow> int option) \<Rightarrow> (string \<Rightarrow> pyfloat option) \<Rightarrow> string \<Rightarrow> (int \<times> pyfloat) option" where
  "data_entry pint pfloat line =
     (if str_contains ''Bar'' line \<and> str_contains ''Expected'' line then
        (let parts = str_split line in
         if length parts \<ge> 4 then
           (case pint (parts ! 0) of
              None \<Rightarrow> None
            | Some bar_idx \<Rightarrow>
                (case pfloat (parts ! 1) of
                   None \<Rightarrow> None
                 | Some expected \<Rightarrow>
                     (case pfloat (parts ! 2) of
                        None \<Rightarrow> None
                      | Some computed \<Rightarrow> Some (bar_idx, computed))))
         else None)
      else None)"

text \<open>
  The loop over the lines, with its two variables \<open>in_section\<close> and \<open>computed_values\<close>.
  \<open>continue\<close> after a header goes to the next line; \<open>break\<close> at a summary line leaves
  the loop, and the function returns the dictionary.
\<close>

fun scan_lines ::
  "(string \<Rightarrow> int option) \<Rightarrow> (string \<Rightarrow> pyfloat option) \<Rightarrow> string \<Rightarrow> string list \<Rightarrow>
   bool \<Rightarrow> (int \<rightharpoonup> pyfloat) \<Rightarrow> (int \<rightharpoonup> pyfloat)" where
  "scan_lines pint pfloat indicator_name [] in_section computed_values = computed_values"
| "scan_lines pint pfloat indicator_name (line # rest) in_section computed_values =
     (if is_header indicator_name line
      then scan_lines pint pfloat indicator_name rest True computed_values
      else
        (let cv = (if in_section
                   then (case data_entry pint pfloat line of
                           None \<Rightarrow> computed_values
                         | Some (bar_idx, computed) \<Rightarrow> computed_values(bar_idx \<mapsto> computed))
                   else computed_values)
         in if in_section \<and> is_summary line then cv
            else scan_lines pint pfloat indicator_name rest in_section cv))"

definition extract_computed_values ::
  "(string \<Rightarrow> int option) \<Rightarrow> (string \<Rightarrow> pyfloat option) \<Rightarrow> string \<Rightarrow> string \<Rightarrow> (int \<rightharpoonup> pyfloat)" where
  "extract_computed_values pint pfloat output_text indicator_name =
     scan_lines pint pfloat indicator_name (split_lines output_text) False Map.empty"

text \<open>
  The two-state machine as the specification words it, to compare with the loop: a header
  line enters \<open>Collecting\<close>; in \<open>Collecting\<close> a data line adds its entry and a summary
  line goes back to \<open>Idle\<close>; every other line leaves the state as it is.
\<close>

datatype mode = Idle | Collecting

definition spec_step ::
  "(string \<Rightarrow> int option) \<Rightarrow> (string \<Rightarrow> pyfloat option) \<Rightarrow> string \<Rightarrow>
   mode \<times> (int \<rightharpoonup> pyfloat) \<Rightarrow> string \<Rightarrow> mode \<times> (int \<rightharpoonup> pyfloat)" where
  "spec_step pint pfloat indicator_name = (\<lambda>(m, cv) line.
     if is_header indicator_name line then (Collecting, cv)
     else if m = Collecting then
       (if is_summary line then Idle else Collecting,
        case data_entry pint pfloat line of None \<Rightarrow> cv | Some (b, c) \<Rightarrow> cv(b \<mapsto> c))
     else (Idle, cv))"

definition spec_machine ::
  "(string \<Rightarrow> int option) \<Rightarrow> (string \<Rightarrow> pyfloat option) \<Rightarrow> string \<Rightarrow> string list \<Rightarrow> (int \<rightharpoonup> pyfloat)" where
  "spec_machine pint pfloat indicator_name lines =
     snd (foldl (spec_step pint pfloat indicator_name) (Idle, Map.empty) lines)"

text \<open>The lines up to and including the first summary line met while collecting.\<close>

fun first_section :: "string \<Rightarrow> mode \<Rightarrow> string list \<Rightarrow> string list" where
  "first_section indicator_name m [] = []"
| "first_section indicator_name m (line # rest) =
     (if is_header indicator_name line then line # first_section indicator_name Collecting rest
      else if m = Collecting \<and> is_summary line then [line]
      else line # first_section indicator_name m rest)"

text \<open>Two logs to run the extractor on, and the state that \<open>in_section\<close> stands for.\<close>

definition example_log :: string where
  "example_log = ''TGT_115 Up=1'' @ [CHR 0x0A] @ ''some prose'' @ [CHR 0x0A]
     @ ''5 0.5 0.75 Bar Expected'' @ [CHR 0x0A] @ ''Summary: first'' @ [CHR 0x0A]
     @ ''TGT_115 Up=2'' @ [CHR 0x0A] @ ''6 0.5 0.25 Bar Expected''"


definition open_log :: string where
  "open_log = ''prose first'' @ [CHR 0x0A] @ ''TGT_115 Up=1'' @ [CHR 0x0A]
     @ ''5 0.5 0.75 Bar Expected'' @ [CHR 0x0A] @ ''x 0.5 0.75 Bar Expected''"

fun mode_of :: "bool \<Rightarrow> mode" where
  "mode_of True = Collecting"
| "mode_of False = Idle"

section \<open>Comparison of two series\<close>

subsection \<open>Arithmetic of numpy floats\<close>

text \<open>
  Exact on finite values; on the special values as IEEE 754 has it, which is what numpy
  computes on arrays (a division by zero gives an infinity or NaN, not an exception).
  The sign of a zero is not modelled: a finite number over zero takes the sign of the
  numerator.
\<close>

fun fsub :: "pyfloat \<Rightarrow> pyfloat \<Rightarrow> pyfloat" where
  "fsub NaN _ = NaN"
| "fsub _ NaN = NaN"
| "fsub (Fin a) (Fin b) = Fin (a - b)"
| "fsub (Fin a) PInf = NInf"
| "fsub (Fin a) NInf = PInf"
| "fsub PInf PInf = NaN"
| "fsub PInf _ = PInf"
| "fsub NInf NInf = NaN"
| "fsub NInf _ = NInf"

fun fadd :: "pyfloat \<Rightarrow> pyfloat \<Rightarrow> pyfloat" where
  "fadd NaN _ = NaN"
| "fadd _ NaN = NaN"
| "fadd (Fin a) (Fin b) = Fin (a + b)"
| "fadd (Fin a) PInf = PInf"
| "fadd (Fin a) NInf = NInf"
| "fadd PInf NInf = NaN"
| "fadd PInf _ = PInf"
| "fadd NInf PInf = NaN"
| "fadd NInf _ = NInf"

fun fabs :: "pyfloat \<Rightarrow> pyfloat" where
  "fabs (Fin a) = Fin \<bar>a\<bar>"
| "fabs PInf = PInf"
| "fabs NInf = PInf"
| "fabs NaN = NaN"

fun fneg :: "pyfloat \<Rightarrow> pyfloat" where
  "fneg (Fin a) = Fin (- a)"
| "fneg PInf = NInf"
| "fneg NInf = PInf"
| "fneg NaN = NaN"

fun fdiv :: "pyfloat \<Rightarrow> pyfloat \<Rightarrow> pyfloat" where
  "fdiv NaN _ = NaN"
| "fdiv _ NaN = NaN"
| "fdiv (Fin a) (Fin b) =
     (if b = 0 then (if a = 0 then NaN else if a > 0 then PInf else NInf) else Fin (a / b))"
| "fdiv (Fin a) _ = Fin 0"
| "fdiv PInf (Fin b) = (if b \<ge> 0 then PInf else NInf)"
| "fdiv NInf (Fin b) = (if b \<ge> 0 then NInf else PInf)"
| "fdiv _ _ = NaN"

fun fmul :: "pyfloat \<Rightarrow> pyfloat \<Rightarrow> pyfloat" where
  "fmul NaN _ = NaN"
| "fmul _ NaN = NaN"
| "fmul (Fin a) (Fin b) = Fin (a * b)"
| "fmul (Fin a) PInf = (if a = 0 then NaN else if a > 0 then PInf else NInf)"
| "fmul (Fin a) NInf = (if a = 0 then NaN else if a > 0 then NInf else PInf)"
| "fmul PInf (Fin b) = (if b = 0 then NaN else if b > 0 then PInf else NInf)"
| "fmul NInf (Fin b) = (if b = 0 then NaN else if b > 0 then NInf else PInf)"
| "fmul PInf PInf = PInf"
| "fmul PInf NInf = NInf"
| "fmul NInf PInf = NInf"
| "fmul NInf NInf = PInf"

text \<open>\<open>a > b\<close>: false as soon as one side is NaN.\<close>

fun fgt :: "pyfloat \<Rightarrow> pyfloat \<Rightarrow> bool" where
  "fgt NaN _ = False"
| "fgt _ NaN = False"
| "fgt (Fin a) (Fin b) = (a > b)"
| "fgt (Fin a) PInf = False"
| "fgt (Fin a) NInf = True"
| "fgt PInf PInf = False"
| "fgt PInf _ = True"
| "fgt NInf _ = False"

definition fsum :: "pyfloat list \<Rightarrow> pyfloat" where
  "fsum xs = foldl fadd (Fin 0) xs"

text \<open>\<open>np.mean\<close>: the sum over the count; NaN on an empty array.\<close>

definition np_mean :: "pyfloat list \<Rightarrow> pyfloat" where
  "np_mean xs = (if xs = [] then NaN else fdiv (fsum xs) (Fin (real (length xs))))"

text \<open>\<open>np.nanmean\<close>: the mean of the entries that are not NaN; NaN when there is none.\<close>

definition np_nanmean :: "pyfloat list \<Rightarrow> pyfloat" where
  "np_nanmean xs = np_mean (filter (\<lambda>x. \<not> isnan x) xs)"

text \<open>
  \<open>np.nanmax\<close>: the largest entry that is not NaN; NaN when all are NaN; \<open>ValueError\<close> on
  an empty array.
\<close>

definition fmax :: "pyfloat \<Rightarrow> pyfloat \<Rightarrow> pyfloat" where
  "fmax a b = (if fgt b a then b else a)"

definition np_nanmax :: "pyfloat list \<Rightarrow> py_error + pyfloat" where
  "np_nanmax xs =
     (if xs = [] then Inl ValueError
      else (case filter (\<lambda>x. \<not> isnan x) xs of
              [] \<Rightarrow> Inr NaN
            | y # ys \<Rightarrow> Inr (foldl fmax y ys)))"

text \<open>\<open>xs[mask]\<close>: the entries at which the mask is true.\<close>

definition select :: "bool list \<Rightarrow> 'a list \<Rightarrow> 'a list" where
  "select valid xs = map snd (filter fst (zip valid xs))"

text \<open>\<open>xs[a:b]\<close> for \<open>0 \<le> a\<close> and \<open>0 \<le> b\<close>.\<close>

definition slice :: "'a list \<Rightarrow> nat \<Rightarrow> nat \<Rightarrow> 'a list" where
  "slice xs a b = take (b - a) (drop a xs)"

text \<open>
  What a comparison does with one field: it prints a warning and goes on to the next
  field, or it computes the arrays and the statistics of the figure it saves.
\<close>

datatype 'a outcome = NoValidData string | Plotted 'a

subsection \<open>\<open>create_comparison_plot\<close> of \<open>plot_cmma.py\<close>\<close>

text \<open>
  The data frame is the map from its column names to its columns; pandas keeps all columns
  at one length. A missing column is a \<open>KeyError\<close>. \<open>np.corrcoef(a, b)[0, 1]\<close> is a
  parameter.
\<close>

record cmma_plot =
  cp_x :: "pyfloat list"
  cp_csv_vals :: "pyfloat list"
  cp_computed_vals :: "pyfloat list"
  cp_diff :: "pyfloat list"
  cp_mae :: pyfloat
  cp_ratio :: "pyfloat list"
  cp_corr :: pyfloat

definition cmma_valid_mask :: "pyfloat list \<Rightarrow> pyfloat list \<Rightarrow> bool list" where
  "cmma_valid_mask csv computed = map2 (\<lambda>a b. isfinite a \<and> isfinite b) csv computed"

text \<open>
  The literal \<open>1e-10\<close> is a double: the one nearest to the tenth negative power of ten,
  \<open>7737125245533627 / 2 ^ 86\<close>, a little above it.
\<close>

definition double_1e_10 :: real where
  "double_1e_10 = 7737125245533627 / 2 ^ 86"

definition cmma_ratio :: "pyfloat list \<Rightarrow> pyfloat list \<Rightarrow> pyfloat list" where
  "cmma_ratio csv_vals computed_vals =
     map2 (\<lambda>c p. if fgt (fabs c) (Fin double_1e_10) then fdiv p c else Fin 1) csv_vals computed_vals"

definition create_comparison_plot ::
  "(pyfloat list \<Rightarrow> pyfloat list \<Rightarrow> pyfloat) \<Rightarrow> (string \<rightharpoonup> pyfloat list) \<Rightarrow>
   string \<Rightarrow> string \<Rightarrow> string \<Rightarrow> py_error + cmma_plot outcome" where
  "create_comparison_plot corrcoef df indicator_name csv_col computed_col =
     (case df csv_col of
        None \<Rightarrow> Inl KeyError
      | Some csv \<Rightarrow>
          (case df computed_col of
             None \<Rightarrow> Inl KeyError
           | Some computed \<Rightarrow>
               (let valid_mask = cmma_valid_mask csv computed in
                if length (filter id valid_mask) = 0
                then Inr (NoValidData (''WARNING: No valid data for '' @ indicator_name))
                else
                  (case df ''bar'' of
                     None \<Rightarrow> Inl KeyError
                   | Some bar \<Rightarrow>
                       (let x = select valid_mask bar;
                            csv_vals = select valid_mask csv;
                            computed_vals = select valid_mask computed;
                            diff = map2 fsub computed_vals csv_vals
                        in Inr (Plotted
                             \<lparr> cp_x = x,
                               cp_csv_vals = csv_vals,
                               cp_computed_vals = computed_vals,
                               cp_diff = diff,
                               cp_mae = np_mean (map fabs diff),
                               cp_ratio = cmma_ratio csv_vals computed_vals,
                               cp_corr = corrcoef csv_vals computed_vals \<rparr>))))))"

subsection \<open>The loop over the indicators in \<open>main\<close> of \<open>plot_hit_or_miss.py\<close>\<close>

record hm_plot =
  hp_start_idx :: nat
  hp_end_idx :: nat
  hp_diff :: "pyfloat list"
  hp_mae :: pyfloat
  hp_max_error :: pyfloat
  hp_mean_rel_error :: pyfloat

definition hm_valid :: "pyfloat list \<Rightarrow> pyfloat list \<Rightarrow> bool list" where
  "hm_valid csv_vals computed_vals = map2 (\<lambda>a b. \<not> isnan a \<and> \<not> isnan b) csv_vals computed_vals"

text \<open>\<open>np.where(valid)[0]\<close>: the positions at which the mask is true, ascending.\<close>

definition np_where :: "bool list \<Rightarrow> nat list" where
  "np_where valid = filter (\<lambda>i. valid ! i) [0..<length valid]"

definition compare_indicator ::
  "string \<Rightarrow> pyfloat list \<Rightarrow> pyfloat list \<Rightarrow> py_error + hm_plot outcome" where
  "compare_indicator name csv_vals computed_vals =
     (let valid = hm_valid csv_vals computed_vals;
          valid_indices = np_where valid
      in if length valid_indices = 0
         then Inr (NoValidData (''Warning: No valid data for '' @ name))
         else
           (let start_idx = hd valid_indices;
                end_idx = last valid_indices;
                ref = slice csv_vals start_idx (end_idx + 1);
                diff = map2 fsub (slice computed_vals start_idx (end_idx + 1)) ref
            in case np_nanmax (map fabs diff) of
                 Inl e \<Rightarrow> Inl e
               | Inr max_error \<Rightarrow>
                   Inr (Plotted
                     \<lparr> hp_start_idx = start_idx,
                       hp_end_idx = end_idx,
                       hp_diff = diff,
                       hp_mae = np_nanmean (map fabs diff),
                       hp_max_error = max_error,
                       hp_mean_rel_error =
                         fmul (np_nanmean (map fabs (map2 fdiv diff ref))) (Fin 100) \<rparr>)))"

text \<open>
  \<open>for name, csv_vals, computed_vals in indicators\<close>: \<open>continue\<close> after the warning goes
  on with the next indicator; an exception ends the loop.
\<close>

fun compare_all ::
  "(string \<times> pyfloat list \<times> pyfloat list) list \<Rightarrow> py_error + hm_plot outcome list" where
  "compare_all [] = Inr []"
| "compare_all ((name, csv_vals, computed_vals) # rest) =
     (case compare_indicator name csv_vals computed_vals of
        Inl e \<Rightarrow> Inl e
      | Inr out \<Rightarrow> (case compare_all rest of Inl e \<Rightarrow> Inl e | Inr outs \<Rightarrow> Inr (out # outs)))"

text \<open>
  The mean relative error as the specification words it, to compare with the code's: the
  mean of \<open>|difference / reference|\<close> over the positions where both values are finite and
  the reference is not zero, times 100.
\<close>

definition spec_mean_rel_error :: "pyfloat list \<Rightarrow> pyfloat list \<Rightarrow> pyfloat" where
  "spec_mean_rel_error csv_vals computed_vals =
     fmul (np_mean (map (\<lambda>(r, c). fabs (fdiv (fsub c r) r))
                      (filter (\<lambda>(r, c). isfinite r \<and> isfinite c \<and> r \<noteq> Fin 0)
                         (zip csv_vals computed_vals))))
          (Fin 100)"

text \<open>
  The pairs (reference, computed) of the positions at which the mask of
  \<open>create_comparison_plot\<close> is true, in order.
\<close>

definition both_finite :: "pyfloat \<times> pyfloat \<Rightarrow> bool" where
  "both_finite = (\<lambda>(a, b). isfinite a \<and> isfinite b)"

definition jointly_finite :: "pyfloat list \<Rightarrow> pyfloat list \<Rightarrow> (pyfloat \<times> pyfloat) list" where
  "jointly_finite csv computed = filter both_finite (zip csv computed)"

text \<open>A data frame to run \<open>create_comparison_plot\<close> on, and what it plots.\<close>

definition example_df :: "string \<rightharpoonup> pyfloat list" where
  "example_df = [''bar'' \<mapsto> [Fin 0, Fin 1, Fin 2, Fin 3],
                 ''csv_CMMA_S'' \<mapsto> [Fin 2, Fin 0, NaN, Fin (1 / 10 ^ 11)],
                 ''computed_CMMA_S'' \<mapsto> [Fin 3, Fin 5, Fin 1, Fin 7]]"


definition example_cmma_plot :: cmma_plot where
  "example_cmma_plot =
     \<lparr> cp_x = [Fin 0, Fin 1, Fin 3],
       cp_csv_vals = [Fin 2, Fin 0, Fin (1 / 10 ^ 11)],
       cp_computed_vals = [Fin 3, Fin 5, Fin 7],
       cp_diff = [Fin 1, Fin 5, Fin (7 - 1 / 10 ^ 11)],
       cp_mae = Fin ((13 - 1 / 10 ^ 11) / 3),
       cp_ratio = [Fin (3 / 2), Fin 1, Fin 1],
       cp_corr = NaN \<rparr>"

text \<open>
  For the loop of \<open>plot_hit_or_miss.py\<close>: the pairs (reference, computed) of the
  positions at which its mask is true, the absolute and the relative error of a pair, and
  what \<open>nanmean\<close> and \<open>nanmax\<close> keep of an array.
\<close>

definition both_present :: "pyfloat \<times> pyfloat \<Rightarrow> bool" where
  "both_present = (\<lambda>(a, b). \<not> isnan a \<and> \<not> isnan b)"

definition jointly_present :: "pyfloat list \<Rightarrow> pyfloat list \<Rightarrow> (pyfloat \<times> pyfloat) list" where
  "jointly_present csv_vals computed_vals = filter both_present (zip csv_vals computed_vals)"

definition abs_error :: "pyfloat \<times> pyfloat \<Rightarrow> pyfloat" where
  "abs_error = (\<lambda>(r, c). fabs (fsub c r))"

definition rel_error :: "pyfloat \<times> pyfloat \<Rightarrow> pyfloat" where
  "rel_error = (\<lambda>(r, c). fabs (fdiv (fsub c r) r))"

definition drop_nan :: "pyfloat list \<Rightarrow> pyfloat list" where
  "drop_nan xs = filter (\<lambda>x. \<not> isnan x) xs"

text \<open>What the loop plots for the series \<open>[0, 2]\<close> and \<open>[1, 3]\<close>.\<close>

definition zero_reference_plot :: hm_plot where
  "zero_reference_plot =
     \<lparr> hp_start_idx = 0, hp_end_idx = 1, hp_diff = [Fin 1, Fin 1], hp_mae = Fin 1,
       hp_max_error = Fin 1, hp_mean_rel_error = PInf \<rparr>"

text \<open>
  What the loop plots for the series \<open>[2, 4, nan, 0]\<close> and \<open>[1, 3, 1, 0]\<close>, and for an
  infinite reference value.
\<close>

definition example_hm_plot :: hm_plot where
  "example_hm_plot =
     \<lparr> hp_start_idx = 0, hp_end_idx = 3, hp_diff = [Fin (- 1), Fin (- 1), NaN, Fin 0],
       hp_mae = Fin (2 / 3), hp_max_error = Fin 1, hp_mean_rel_error = Fin (75 / 2) \<rparr>"

definition infinite_reference_plot :: hm_plot where
  "infinite_reference_plot =
     \<lparr> hp_start_idx = 0, hp_end_idx = 0, hp_diff = [NInf],
       hp_mae = PInf, hp_max_error = PInf, hp_mean_rel_error = NaN \<rparr>"

text \<open>
  The number of mask-true positions before position \<open>j\<close>: where the row of position
  \<open>j\<close> stands in the arrays that \<open>create_comparison_plot\<close> plots.
\<close>

definition valid_before :: "pyfloat list \<Rightarrow> pyfloat list \<Rightarrow> nat \<Rightarrow> nat" where
  "valid_before csv computed j = length (jointly_finite (take j csv) (take j computed))"

text \<open>
  A data frame whose first reference value is the threshold itself and whose second is
  infinite, and what \<open>create_comparison_plot\<close> plots for it.
\<close>

definition boundary_df :: "string \<rightharpoonup> pyfloat list" where
  "boundary_df = [''bar'' \<mapsto> [Fin 0, Fin 1, Fin 2],
                  ''csv_CMMA_S'' \<mapsto> [Fin double_1e_10, PInf, Fin 2],
                  ''computed_CMMA_S'' \<mapsto> [Fin 5, Fin 1, Fin 3]]"

definition boundary_plot :: cmma_plot where
  "boundary_plot =
     \<lparr> cp_x = [Fin 0, Fin 2],
       cp_csv_vals = [Fin double_1e_10, Fin 2],
       cp_computed_vals = [Fin 5, Fin 3],
       cp_diff = [Fin (5 - double_1e_10), Fin 1],
       cp_mae = Fin ((6 - double_1e_10) / 2),
       cp_ratio = [Fin 1, Fin (3 / 2)],
       cp_corr = NaN \<rparr>"

section \<open>Properties of \<open>parse_tssb_csv\<close>\<close>

lemma parse_line_falsy:
  "\<not> truthy (tgt_pick i115 i315 i555 f) \<Longrightarrow> parse_line pint pfloat i115 i315 i555 l acc = Inr r \<Longrightarrow>
   tgt_column r f = tgt_column acc f"
  by (cases f) (auto simp: parse_line_def append_cell_def Let_def split: sum.splits if_splits option.splits)

lemma parse_lines_falsy:
  "\<not> truthy (tgt_pick i115 i315 i555 f) \<Longrightarrow> parse_lines pint pfloat i115 i315 i555 ls acc = Inr r \<Longrightarrow>
   tgt_column r f = tgt_column acc f"
proof (induction ls arbitrary: acc)
  case Nil
  then show ?case by simp
next
  case (Cons l ls)
  then obtain acc' where 1: "parse_line pint pfloat i115 i315 i555 l acc = Inr acc'"
    and 2: "parse_lines pint pfloat i115 i315 i555 ls acc' = Inr r"
    by (auto split: sum.splits)
  from Cons.IH [OF Cons.prems(1) 2] parse_line_falsy [OF Cons.prems(1) 1]
  show ?case by simp
qed

lemma column_index_hd: "header \<noteq> [] \<Longrightarrow> hd header = name \<Longrightarrow> column_index name header = Some 0"
  by (cases header) (auto simp: column_index_def)

lemma parse_lines_no_column:
  "\<not> truthy i115 \<Longrightarrow> \<not> truthy i315 \<Longrightarrow> \<not> truthy i555 \<Longrightarrow> ls \<noteq> [] \<Longrightarrow> 
  parse_lines pint pfloat i115 i315 i555 ls acc = Inl ValueError"
  by (cases ls) (auto simp: parse_line_def filter_None_def py_max_def)

lemma filter_None_bound:
  assumes "py_max (filter_None [i115, i315, i555]) = Inr m"
    and "truthy (tgt_pick i115 i315 i555 f)"
  shows "the (tgt_pick i115 i315 i555 f) \<le> m \<and> 1 \<le> m"
proof -
  let ?i = "tgt_pick i115 i315 i555 f"
  have "?i \<in> set [i115, i315, i555]" by (cases f) simp_all
  with assms(2) have mem: "the ?i \<in> set (filter_None [i115, i315, i555])"
    unfolding filter_None_def by (auto intro!: image_eqI [where x = ?i])
  from assms(1) have m: "m = Max (set (filter_None [i115, i315, i555]))"
    by (auto simp: py_max_def split: if_splits)
  from mem have "the ?i \<le> m" unfolding m by (intro Max_ge) simp_all
  moreover from assms(2) have "1 \<le> the ?i" by (cases ?i) simp_all
  ultimately show ?thesis by simp
qed

text \<open>
  C9. When a requested column name stands first in the header, its stored index is 0, which
  is falsy: whenever the parser returns, it has collected no value for that column.
\<close>

theorem column_at_position_zero_collects_nothing:
  assumes "read_header file \<noteq> []"
    and "hd (read_header file) = tgt_name f"
    and "parse_tssb_csv pint pfloat file = Inr r"
  shows "column_index (tgt_name f) (read_header file) = Some 0 \<and> tgt_column r f = []"
proof -
  have 0: "column_index (tgt_name f) (read_header file) = Some 0"
    using assms(1,2) by (rule column_index_hd)
  let ?i = "\<lambda>g. column_index (tgt_name g) (read_header file)"
  have "\<not> truthy (tgt_pick (?i T115) (?i T315) (?i T555) f)"
    using 0 by (cases f) simp_all
  from parse_lines_falsy [OF this] assms(3) have "tgt_column r f = []"
    by (cases f) (auto simp: parse_tssb_csv_def Let_def)
  with 0 show ?thesis by simp
qed


theorem column_at_position_zero_collects_nothing_witness:
  "read_header [''TGT_115 T TGT_315'', ''1 2 3.5'', ''4 5 abc'', ''7''] \<noteq> []
   \<and> hd (read_header [''TGT_115 T TGT_315'', ''1 2 3.5'', ''4 5 abc'', ''7'']) = tgt_name T115
   \<and> parse_tssb_csv ex_int ex_float [''TGT_115 T TGT_315'', ''1 2 3.5'', ''4 5 abc'', ''7'']
       = Inr \<lparr> csv_date = [1, 4], csv_time = [2, 5], TGT_115 = [],
               TGT_315 = [Fin (7 / 2), NaN], TGT_555 = [] \<rparr>
   \<and> column_index (tgt_name T115)
        (read_header [''TGT_115 T TGT_315'', ''1 2 3.5'', ''4 5 abc'', ''7'']) = Some 0
   \<and> tgt_column \<lparr> csv_date = [1, 4], csv_time = [2, 5], TGT_115 = [],
                   TGT_315 = [Fin (7 / 2), NaN], TGT_555 = [] \<rparr> T115 = []"
proof -
  let ?file = "[''TGT_115 T TGT_315'', ''1 2 3.5'', ''4 5 abc'', ''7'']"
  let ?r = "\<lparr> csv_date = [1, 4], csv_time = [2, 5], TGT_115 = [],
             TGT_315 = [Fin (7 / 2), NaN], TGT_555 = [] \<rparr>"
  have h1: "read_header ?file \<noteq> []" by code_simp
  have h2: "hd (read_header ?file) = tgt_name T115" by code_simp
  have h3: "parse_tssb_csv ex_int ex_float ?file = Inr ?r" by code_simp
  from column_at_position_zero_collects_nothing [OF h1 h2 h3] h1 h2 h3
  show ?thesis by blast
qed

text \<open>
  C10. When none of the three column names has a truthy index (each is absent from the
  header, or stands at position 0) and the file has at least one line after the header,
  the parser raises \<open>ValueError\<close>: \<open>max\<close> of an empty sequence, at the first data line.
\<close>

theorem parse_tssb_csv_no_columns_raises:
  assumes "\<not> truthy (column_index ''TGT_115'' (read_header file))"
    and "\<not> truthy (column_index ''TGT_315'' (read_header file))"
    and "\<not> truthy (column_index ''TGT_555'' (read_header file))"
    and "tl file \<noteq> []"
  shows "parse_tssb_csv pint pfloat file = Inl ValueError"
  using assms by (simp add: parse_tssb_csv_def parse_lines_no_column)

theorem parse_tssb_csv_no_columns_raises_witness:
  "\<not> truthy (column_index ''TGT_115'' (read_header [''TGT_115 T X'', ''1 2 3.5'']))
   \<and> \<not> truthy (column_index ''TGT_315'' (read_header [''TGT_115 T X'', ''1 2 3.5'']))
   \<and> \<not> truthy (column_index ''TGT_555'' (read_header [''TGT_115 T X'', ''1 2 3.5'']))
   \<and> tl [''TGT_115 T X'', ''1 2 3.5''] \<noteq> []
   \<and> parse_tssb_csv ex_int ex_float [''TGT_115 T X'', ''1 2 3.5''] = Inl ValueError"
proof -
  have h1: "\<not> truthy (column_index ''TGT_115'' (read_header [''TGT_115 T X'', ''1 2 3.5'']))"
    by code_simp
  have h2: "\<not> truthy (column_index ''TGT_315'' (read_header [''TGT_115 T X'', ''1 2 3.5'']))"
    by code_simp
  have h3: "\<not> truthy (column_index ''TGT_555'' (read_header [''TGT_115 T X'', ''1 2 3.5'']))"
    by code_simp
  have h4: "tl [''TGT_115 T X'', ''1 2 3.5''] \<noteq> []" by simp
  from parse_tssb_csv_no_columns_raises [OF h1 h2 h3 h4, of ex_int ex_float] h1 h2 h3 h4
  show ?thesis by blast
qed

lemma parse_line_accepted:
  assumes m: "py_max (filter_None [i115, i315, i555]) = Inr m"
    and len: "length (str_split (str_strip line)) > m"
    and d: "pint (str_split (str_strip line) ! 0) = Some d"
    and t: "pint (str_split (str_strip line) ! 1) = Some t"
  shows "\<exists>acc'. parse_line pint pfloat i115 i315 i555 line acc = Inr acc'
           \<and> csv_date acc' = csv_date acc @ [d]
           \<and> csv_time acc' = csv_time acc @ [t]
           \<and> (\<forall>f. tgt_column acc' f =
                 (if truthy (tgt_pick i115 i315 i555 f)
                  then tgt_column acc f @
                         [float_cell pfloat (the (tgt_pick i115 i315 i555 f)) (str_split (str_strip line))]
                  else tgt_column acc f))"
proof -
  let ?parts = "str_split (str_strip line)"
  have cell: "append_cell pfloat (tgt_pick i115 i315 i555 f) ?parts col =
      (if truthy (tgt_pick i115 i315 i555 f)
       then col @ [float_cell pfloat (the (tgt_pick i115 i315 i555 f)) ?parts]
       else col)" for f col
    using filter_None_bound [OF m, of f] len
    by (auto simp: append_cell_def list_get_def float_cell_def split: option.splits)
  have "truthy i115 \<or> truthy i315 \<or> truthy i555"
    using m by (auto simp: py_max_def filter_None_def split: if_splits)
  then obtain f0 where "truthy (tgt_pick i115 i315 i555 f0)"
    by (metis tgt_pick.simps)
  with filter_None_bound [OF m] have "1 \<le> m" by blast
  with len have l2: "0 < length ?parts" "1 < length ?parts" by linarith+
  let ?acc' = "\<lparr> csv_date = csv_date acc @ [d], csv_time = csv_time acc @ [t],
       TGT_115 = append_cell pfloat i115 ?parts (TGT_115 acc),
       TGT_315 = append_cell pfloat i315 ?parts (TGT_315 acc),
       TGT_555 = append_cell pfloat i555 ?parts (TGT_555 acc) \<rparr>"
  have run: "parse_line pint pfloat i115 i315 i555 line acc = Inr ?acc'"
    using m len d t l2 by (simp add: parse_line_def Let_def list_get_def)
  have cols: "tgt_column ?acc' f =
      (if truthy (tgt_pick i115 i315 i555 f)
       then tgt_column acc f @ [float_cell pfloat (the (tgt_pick i115 i315 i555 f)) ?parts]
       else tgt_column acc f)" for f
    using cell [of T115 "TGT_115 acc"] cell [of T315 "TGT_315 acc"] cell [of T555 "TGT_555 acc"]
    by (cases f) simp_all
  from run cols show ?thesis by simp
qed

lemma parse_line_skipped:
  "py_max (filter_None [i115, i315, i555]) = Inr m \<Longrightarrow>
   \<not> length (str_split (str_strip line)) > m \<Longrightarrow>
   parse_line pint pfloat i115 i315 i555 line acc = Inr acc"
  by (simp add: parse_line_def Let_def)

lemma parse_lines_accepted:
  assumes m: "py_max (filter_None [i115, i315, i555]) = Inr m"
    and ok: "\<forall>parts \<in> set (accepted_rows m ls). pint (parts ! 0) \<noteq> None \<and> pint (parts ! 1) \<noteq> None"
  shows "\<exists>acc'. parse_lines pint pfloat i115 i315 i555 ls acc = Inr acc'
           \<and> csv_date acc' = csv_date acc @ map (\<lambda>parts. the (pint (parts ! 0))) (accepted_rows m ls)
           \<and> csv_time acc' = csv_time acc @ map (\<lambda>parts. the (pint (parts ! 1))) (accepted_rows m ls)
           \<and> (\<forall>f. tgt_column acc' f =
                 (if truthy (tgt_pick i115 i315 i555 f)
                  then tgt_column acc f @
                         map (float_cell pfloat (the (tgt_pick i115 i315 i555 f))) (accepted_rows m ls)
                  else tgt_column acc f))"
  using ok
proof (induction ls arbitrary: acc)
  case Nil
  then show ?case by (simp add: accepted_rows_def)
next
  case (Cons l ls)
  let ?parts = "str_split (str_strip l)"
  have rest: "\<forall>parts \<in> set (accepted_rows m ls). pint (parts ! 0) \<noteq> None \<and> pint (parts ! 1) \<noteq> None"
    using Cons.prems by (auto simp: accepted_rows_def)
  show ?case
  proof (cases "length ?parts > m")
    case True
    then have rows: "accepted_rows m (l # ls) = ?parts # accepted_rows m ls"
      by (simp add: accepted_rows_def)
    with Cons.prems obtain d t where d: "pint (?parts ! 0) = Some d" and t: "pint (?parts ! 1) = Some t"
      by auto
    from parse_line_accepted [OF m True d t, of pfloat acc]
    obtain acc1 where 1: "parse_line pint pfloat i115 i315 i555 l acc = Inr acc1"
      and d1: "csv_date acc1 = csv_date acc @ [d]" and t1: "csv_time acc1 = csv_time acc @ [t]"
      and c1: "\<forall>f. tgt_column acc1 f =
                 (if truthy (tgt_pick i115 i315 i555 f)
                  then tgt_column acc f @ [float_cell pfloat (the (tgt_pick i115 i315 i555 f)) ?parts]
                  else tgt_column acc f)"
      by blast
    from Cons.IH [OF rest, of acc1]
    obtain acc' where 2: "parse_lines pint pfloat i115 i315 i555 ls acc1 = Inr acc'"
      and d2: "csv_date acc' = csv_date acc1 @ map (\<lambda>parts. the (pint (parts ! 0))) (accepted_rows m ls)"
      and t2: "csv_time acc' = csv_time acc1 @ map (\<lambda>parts. the (pint (parts ! 1))) (accepted_rows m ls)"
      and c2: "\<forall>f. tgt_column acc' f =
                 (if truthy (tgt_pick i115 i315 i555 f)
                  then tgt_column acc1 f @
                         map (float_cell pfloat (the (tgt_pick i115 i315 i555 f))) (accepted_rows m ls)
                  else tgt_column acc1 f)"
      by blast
    have "parse_lines pint pfloat i115 i315 i555 (l # ls) acc = Inr acc'" using 1 2 by simp
    moreover have "csv_date acc' = csv_date acc @ map (\<lambda>parts. the (pint (parts ! 0))) (accepted_rows m (l # ls))"
      using d1 d2 d by (simp add: rows)
    moreover have "csv_time acc' = csv_time acc @ map (\<lambda>parts. the (pint (parts ! 1))) (accepted_rows m (l # ls))"
      using t1 t2 t by (simp add: rows)
    moreover have "\<forall>f. tgt_column acc' f =
                 (if truthy (tgt_pick i115 i315 i555 f)
                  then tgt_column acc f @
                         map (float_cell pfloat (the (tgt_pick i115 i315 i555 f))) (accepted_rows m (l # ls))
                  else tgt_column acc f)"
      using c1 c2 by (simp add: rows)
    ultimately show ?thesis by blast
  next
    case False
    then have rows: "accepted_rows m (l # ls) = accepted_rows m ls"
      by (simp add: accepted_rows_def)
    have "parse_lines pint pfloat i115 i315 i555 (l # ls) acc
        = parse_lines pint pfloat i115 i315 i555 ls acc"
      using parse_line_skipped [OF m False, of pint pfloat acc] by simp
    with Cons.IH [OF rest, of acc] show ?thesis unfolding rows by presburger
  qed
qed


text \<open>
  C8. Let some column have a truthy index, and let the date and the time convert on every
  data line that passes the length test. Then \<open>parse_tssb_csv\<close> returns, whatever the
  float conversion does: the returned series have one entry per accepted line, the date and
  the time of the line, and for every column with a truthy index the converted cell of
  the line, NaN where \<open>float\<close> rejects the cell. An entry depends on its own cell alone,
  so a cell that is no number leaves the other fields of its row as they are.
\<close>

theorem unparsable_cell_becomes_nan:
  assumes m: "py_max (filter_None [header_index file T115, header_index file T315,
                                   header_index file T555]) = Inr m"
    and ok: "\<forall>parts \<in> set (accepted_rows m (tl file)).
               pint (parts ! 0) \<noteq> None \<and> pint (parts ! 1) \<noteq> None"
  shows "\<exists>r. parse_tssb_csv pint pfloat file = Inr r
           \<and> csv_date r = map (\<lambda>parts. the (pint (parts ! 0))) (accepted_rows m (tl file))
           \<and> csv_time r = map (\<lambda>parts. the (pint (parts ! 1))) (accepted_rows m (tl file))
           \<and> (\<forall>f. tgt_column r f =
                 (if truthy (header_index file f)
                  then map (float_cell pfloat (the (header_index file f))) (accepted_rows m (tl file))
                  else []))
           \<and> (\<forall>f k. truthy (header_index file f) \<and> k < length (accepted_rows m (tl file))
                   \<and> pfloat (accepted_rows m (tl file) ! k ! the (header_index file f)) = None
                 \<longrightarrow> tgt_column r f ! k = NaN)"
proof -
  let ?i115 = "header_index file T115" and ?i315 = "header_index file T315"
    and ?i555 = "header_index file T555"
  let ?rows = "accepted_rows m (tl file)"
  let ?init = "\<lparr> csv_date = [], csv_time = [], TGT_115 = [], TGT_315 = [], TGT_555 = [] \<rparr>"
  have pick: "tgt_pick ?i115 ?i315 ?i555 f = header_index file f" for f
    by (cases f) simp_all
  have run: "parse_tssb_csv pint pfloat file = parse_lines pint pfloat ?i115 ?i315 ?i555 (tl file) ?init"
    by (simp add: parse_tssb_csv_def header_index_def Let_def)
  from parse_lines_accepted [OF m ok, of pfloat ?init]
  obtain r where r: "parse_lines pint pfloat ?i115 ?i315 ?i555 (tl file) ?init = Inr r"
    and d: "csv_date r = csv_date ?init @ map (\<lambda>parts. the (pint (parts ! 0))) ?rows"
    and t: "csv_time r = csv_time ?init @ map (\<lambda>parts. the (pint (parts ! 1))) ?rows"
    and c: "\<forall>f. tgt_column r f =
                 (if truthy (tgt_pick ?i115 ?i315 ?i555 f)
                  then tgt_column ?init f @ map (float_cell pfloat (the (tgt_pick ?i115 ?i315 ?i555 f))) ?rows
                  else tgt_column ?init f)"
    by blast
  have empty: "tgt_column ?init f = []" for f by (cases f) simp_all
  have cols: "\<forall>f. tgt_column r f =
                 (if truthy (header_index file f)
                  then map (float_cell pfloat (the (header_index file f))) ?rows else [])"
    using c by (simp add: pick empty)
  have nan: "tgt_column r f ! k = NaN"
    if "truthy (header_index file f)" "k < length ?rows"
      "pfloat (?rows ! k ! the (header_index file f)) = None" for f k
    using that cols by (simp add: float_cell_def)
  have "parse_tssb_csv pint pfloat file = Inr r" using run r by simp
  moreover have "csv_date r = map (\<lambda>parts. the (pint (parts ! 0))) ?rows" using d by simp
  moreover have "csv_time r = map (\<lambda>parts. the (pint (parts ! 1))) ?rows" using t by simp
  ultimately show ?thesis using cols nan by blast
qed

lemma malformed_rows:
  "accepted_rows 3 (tl malformed_file) = [[''1'', ''2'', ''3.5'', ''nan''], [''4'', ''5'', ''abc'', ''-0.25'']]"
  by code_simp

lemma malformed_run:
  "parse_tssb_csv ex_int ex_float malformed_file
     = Inr \<lparr> csv_date = [1, 4], csv_time = [2, 5], TGT_115 = [NaN, Fin (- (1 / 4))],
             TGT_315 = [Fin (7 / 2), NaN], TGT_555 = [] \<rparr>"
  by code_simp

theorem unparsable_cell_becomes_nan_witness:
  "py_max (filter_None [header_index malformed_file T115, header_index malformed_file T315,
                        header_index malformed_file T555]) = Inr 3
   \<and> list_all (\<lambda>parts. ex_int (parts ! 0) \<noteq> None \<and> ex_int (parts ! 1) \<noteq> None)
        (accepted_rows 3 (tl malformed_file))
   \<and> truthy (header_index malformed_file T315)
   \<and> ex_float (accepted_rows 3 (tl malformed_file) ! 1 ! the (header_index malformed_file T315)) = None
   \<and> (\<exists>r. parse_tssb_csv ex_int ex_float malformed_file = Inr r
         \<and> r = \<lparr> csv_date = [1, 4], csv_time = [2, 5], TGT_115 = [NaN, Fin (- (1 / 4))],
                  TGT_315 = [Fin (7 / 2), NaN], TGT_555 = [] \<rparr>
         \<and> tgt_column r T315 ! 1 = NaN
         \<and> tgt_column r T115 ! 1 = Fin (- (1 / 4))
         \<and> csv_date r ! 1 = 4 \<and> csv_time r ! 1 = 5)"
proof -
  have h1: "py_max (filter_None [header_index malformed_file T115, header_index malformed_file T315,
                        header_index malformed_file T555]) = Inr 3" by code_simp
  have h2': "list_all (\<lambda>parts. ex_int (parts ! 0) \<noteq> None \<and> ex_int (parts ! 1) \<noteq> None)
        (accepted_rows 3 (tl malformed_file))" by code_simp
  then have h2: "\<forall>parts \<in> set (accepted_rows 3 (tl malformed_file)).
               ex_int (parts ! 0) \<noteq> None \<and> ex_int (parts ! 1) \<noteq> None"
    by (simp add: list_all_iff)
  have h3: "truthy (header_index malformed_file T315)" by code_simp
  have h4: "ex_float (accepted_rows 3 (tl malformed_file) ! 1 ! the (header_index malformed_file T315)) = None"
    by code_simp
  have h5: "(1::nat) < length (accepted_rows 3 (tl malformed_file))" by (simp add: malformed_rows)
  from unparsable_cell_becomes_nan [OF h1 h2, of ex_float]
  obtain r where run: "parse_tssb_csv ex_int ex_float malformed_file = Inr r"
    and nan: "\<And>f k. truthy (header_index malformed_file f) \<and> k < length (accepted_rows 3 (tl malformed_file))
                   \<and> ex_float (accepted_rows 3 (tl malformed_file) ! k ! the (header_index malformed_file f)) = None
                 \<Longrightarrow> tgt_column r f ! k = NaN"
    by blast
  have n: "tgt_column r T315 ! 1 = NaN" by (rule nan) (use h3 h4 h5 in blast)
  have r: "r = \<lparr> csv_date = [1, 4], csv_time = [2, 5], TGT_115 = [NaN, Fin (- (1 / 4))],
                  TGT_315 = [Fin (7 / 2), NaN], TGT_555 = [] \<rparr>"
    using run malformed_run by simp
  have o: "tgt_column r T115 ! 1 = Fin (- (1 / 4))" "csv_date r ! 1 = 4" "csv_time r ! 1 = 5"
    by (simp_all add: r)
  from h1 h2' h3 h4 run r n o show ?thesis by blast
qed

section \<open>Properties of \<open>align_data\<close>\<close>

lemma build_map_snoc: "build_map (ks @ [k]) = (build_map ks)(k \<mapsto> length ks)"
  by (simp add: build_map_def enumerate_append_eq)

lemma build_map_Some:
  "build_map ks key = Some j \<Longrightarrow>
   j < length ks \<and> ks ! j = key \<and> (\<forall>j'. j < j' \<and> j' < length ks \<longrightarrow> ks ! j' \<noteq> key)"
proof (induction ks arbitrary: j rule: rev_induct)
  case Nil
  then show ?case by (simp add: build_map_def)
next
  case (snoc k ks)
  show ?case
  proof (cases "k = key")
    case True
    with snoc.prems have "j = length ks" by (simp add: build_map_snoc)
    with True show ?thesis by auto
  next
    case False
    with snoc.prems have "build_map ks key = Some j" by (simp add: build_map_snoc)
    from snoc.IH [OF this] False show ?thesis
      by (auto simp: nth_append less_Suc_eq)
  qed
qed

lemma build_map_None: "key \<notin> set ks \<Longrightarrow> build_map ks key = None"
  by (induction ks rule: rev_induct) (auto simp: build_map_def enumerate_append_eq)

lemma build_map_last:
  "j < length ks \<Longrightarrow> (\<forall>j'. j < j' \<and> j' < length ks \<longrightarrow> ks ! j' \<noteq> ks ! j) \<Longrightarrow>
   build_map ks (ks ! j) = Some j"
proof (induction ks rule: rev_induct)
  case Nil
  then show ?case by simp
next
  case (snoc k ks)
  show ?case
  proof (cases "j = length ks")
    case True
    then show ?thesis by (simp add: build_map_snoc)
  next
    case False
    with snoc.prems(1) have j: "j < length ks" by simp
    from snoc.prems(2) j have "k \<noteq> ks ! j"
      by (metis length_append_singleton lessI nth_append nth_append_length)
    moreover have "\<forall>j'. j < j' \<and> j' < length ks \<longrightarrow> ks ! j' \<noteq> ks ! j"
      using snoc.prems(2) j by (metis length_append_singleton less_Suc_eq nth_append order_less_trans)
    ultimately show ?thesis using snoc.IH [OF j] j
      by (simp add: build_map_snoc nth_append)
  qed
qed

lemma build_map_bound: "build_map ks key = Some j \<Longrightarrow> j < length ks"
  by (drule build_map_Some) simp


lemma align_col_length [simp]: "length (align_col m col rows a) = length a"
  unfolding align_col_def
  by (induction rows arbitrary: a) (auto split: option.splits prod.splits)

lemma align_col_Nil [simp]: "align_col m col [] a = a"
  by (simp add: align_col_def)

lemma align_col_Cons:
  "align_col m col ((i, key) # rows) a =
     align_col m col rows
       (case m key of None \<Rightarrow> a | Some p \<Rightarrow> if i < length col then a[p := col ! i] else a)"
  by (simp add: align_col_def)

lemma align_col_snoc:
  "align_col m col (rows @ [(i, key)]) a =
     (case m key of
        None \<Rightarrow> align_col m col rows a
      | Some p \<Rightarrow> if i < length col then (align_col m col rows a)[p := col ! i]
                  else align_col m col rows a)"
  by (simp add: align_col_def split: option.splits)

lemma align_rows_pure:
  assumes "\<And>key p. m key = Some p \<Longrightarrow> p < n"
    and "length a115 = n" "length a315 = n" "length a555 = n"
  shows "align_rows m csv rows (a115, a315, a555) =
           Inr (align_col m (TGT_115 csv) rows a115,
                align_col m (TGT_315 csv) rows a315,
                align_col m (TGT_555 csv) rows a555)"
  using assms(2-)
proof (induction rows arbitrary: a115 a315 a555)
  case Nil
  then show ?case by simp
next
  case (Cons r rows)
  obtain i key where r: "r = (i, key)" by (cases r)
  show ?case
  proof (cases "m key")
    case None
    with Cons r show ?thesis by (simp add: align_row_def align_col_Cons)
  next
    case (Some p)
    with assms(1) have "p < n" by blast
    with Cons r Some show ?thesis
      by (simp add: align_row_def align_col_Cons place_def)
  qed
qed

lemma align_col_written:
  assumes "i < length ks" "i < length col" "m (ks ! i) = Some p" "p < length a"
    and "\<forall>i'. i < i' \<and> i' < length ks \<and> i' < length col \<longrightarrow> m (ks ! i') \<noteq> Some p"
  shows "align_col m col (enumerate 0 ks) a ! p = col ! i"
  using assms
proof (induction ks rule: rev_induct)
  case Nil
  then show ?case by simp
next
  case (snoc k ks)
  have en: "enumerate 0 (ks @ [k]) = enumerate 0 ks @ [(length ks, k)]"
    by (simp add: enumerate_append_eq)
  show ?case
  proof (cases "i = length ks")
    case True
    with snoc.prems show ?thesis by (simp add: en align_col_snoc)
  next
    case False
    with snoc.prems(1) have i: "i < length ks" by simp
    have mi: "m (ks ! i) = Some p" using snoc.prems(3) i by (simp add: nth_append)
    have later: "\<forall>i'. i < i' \<and> i' < length ks \<and> i' < length col \<longrightarrow> m (ks ! i') \<noteq> Some p"
    proof (intro allI impI)
      fix i' assume a: "i < i' \<and> i' < length ks \<and> i' < length col"
      with snoc.prems(5) have "m ((ks @ [k]) ! i') \<noteq> Some p" by simp
      with a show "m (ks ! i') \<noteq> Some p" by (simp add: nth_append)
    qed
    have IH: "align_col m col (enumerate 0 ks) a ! p = col ! i"
      by (rule snoc.IH [OF i snoc.prems(2) mi snoc.prems(4) later])
    have lastrow: "length ks < length col \<longrightarrow> m k \<noteq> Some p"
      using snoc.prems(5) i by (auto dest!: spec [where x = "length ks"])
    show ?thesis using IH lastrow
      by (auto simp: en align_col_snoc split: option.splits)
  qed
qed

lemma align_col_untouched:
  assumes "\<forall>i. i < length ks \<and> i < length col \<longrightarrow> m (ks ! i) \<noteq> Some p"
  shows "align_col m col (enumerate 0 ks) a ! p = a ! p"
  using assms
proof (induction ks rule: rev_induct)
  case Nil
  then show ?case by simp
next
  case (snoc k ks)
  have en: "enumerate 0 (ks @ [k]) = enumerate 0 ks @ [(length ks, k)]"
    by (simp add: enumerate_append_eq)
  have "\<forall>i. i < length ks \<and> i < length col \<longrightarrow> m (ks ! i) \<noteq> Some p"
  proof (intro allI impI)
    fix i assume a: "i < length ks \<and> i < length col"
    with snoc.prems have "m ((ks @ [k]) ! i) \<noteq> Some p" by simp
    with a show "m (ks ! i) \<noteq> Some p" by (simp add: nth_append)
  qed
  from snoc.IH [OF this] have IH: "align_col m col (enumerate 0 ks) a ! p = a ! p" .
  have lastrow: "length ks < length col \<longrightarrow> m k \<noteq> Some p"
    using snoc.prems by (auto dest!: spec [where x = "length ks"])
  show ?case using IH lastrow
    by (auto simp: en align_col_snoc split: option.splits)
qed

lemma align_data_pure:
  "align_data ohlcv csv =
     Inr (let m = build_map (zip (ohlcv_date ohlcv) (ohlcv_time ohlcv));
              rows = enumerate 0 (zip (csv_date csv) (csv_time csv));
              init = replicate (length (ohlcv_date ohlcv)) NaN
          in (align_col m (TGT_115 csv) rows init,
              align_col m (TGT_315 csv) rows init,
              align_col m (TGT_555 csv) rows init))"
proof -
  have "\<And>key p. build_map (zip (ohlcv_date ohlcv) (ohlcv_time ohlcv)) key = Some p
          \<Longrightarrow> p < length (ohlcv_date ohlcv)"
    by (drule build_map_bound) simp
  from align_rows_pure [OF this] show ?thesis
    by (simp add: align_data_def Let_def)
qed


lemma tgt_aligned_col:
  "tgt_aligned (align_col m (TGT_115 csv) rows init,
                align_col m (TGT_315 csv) rows init,
                align_col m (TGT_555 csv) rows init) f = align_col m (tgt_column csv f) rows init"
  by (cases f) simp_all

text \<open>
  C1, as amended. Alignment never raises and is by key. Every aligned array has one slot
  per bar. When bar \<open>j\<close> is the last bar with its (date, time) and row \<open>i\<close> is the last
  row with that (date, time) that carries the field, the array of the field holds the
  row's value at \<open>j\<close>. A slot that no row's lookup hits is NaN. A row whose key is not
  among the bars' keys changes nothing.
\<close>

theorem alignment_by_key:
  "\<exists>a. align_data ohlcv csv = Inr a
     \<and> (\<forall>f. length (tgt_aligned a f) = length (ohlcv_date ohlcv))
     \<and> (\<forall>f j i. j < length (bar_keys ohlcv) \<and> i < length (row_keys csv)
            \<and> i < length (tgt_column csv f)
            \<and> bar_keys ohlcv ! j = row_keys csv ! i
            \<and> (\<forall>j'. j < j' \<and> j' < length (bar_keys ohlcv) \<longrightarrow> bar_keys ohlcv ! j' \<noteq> bar_keys ohlcv ! j)
            \<and> (\<forall>i'. i < i' \<and> i' < length (row_keys csv) \<and> i' < length (tgt_column csv f)
                   \<longrightarrow> row_keys csv ! i' \<noteq> row_keys csv ! i)
          \<longrightarrow> tgt_aligned a f ! j = tgt_column csv f ! i)
     \<and> (\<forall>f p. p < length (ohlcv_date ohlcv)
            \<and> (\<forall>i. i < length (row_keys csv) \<and> i < length (tgt_column csv f)
                   \<longrightarrow> build_map (bar_keys ohlcv) (row_keys csv ! i) \<noteq> Some p)
          \<longrightarrow> tgt_aligned a f ! p = NaN)
     \<and> (\<forall>i key st. key \<notin> set (bar_keys ohlcv)
          \<longrightarrow> align_row (build_map (bar_keys ohlcv)) csv (i, key) st = Inr st)"
proof -
  let ?m = "build_map (bar_keys ohlcv)"
  let ?rows = "enumerate 0 (row_keys csv)"
  let ?init = "replicate (length (ohlcv_date ohlcv)) NaN"
  let ?a = "(align_col ?m (TGT_115 csv) ?rows ?init,
             align_col ?m (TGT_315 csv) ?rows ?init,
             align_col ?m (TGT_555 csv) ?rows ?init)"
  have run: "align_data ohlcv csv = Inr ?a"
    by (simp add: align_data_pure Let_def bar_keys_def row_keys_def)
  have col: "tgt_aligned ?a f = align_col ?m (tgt_column csv f) ?rows ?init" for f
    by (rule tgt_aligned_col)
  have len: "\<forall>f. length (tgt_aligned ?a f) = length (ohlcv_date ohlcv)"
    by (simp add: col)
  have written: "tgt_aligned ?a f ! j = tgt_column csv f ! i"
    if "j < length (bar_keys ohlcv)" "i < length (row_keys csv)" "i < length (tgt_column csv f)"
      "bar_keys ohlcv ! j = row_keys csv ! i"
      "\<forall>j'. j < j' \<and> j' < length (bar_keys ohlcv) \<longrightarrow> bar_keys ohlcv ! j' \<noteq> bar_keys ohlcv ! j"
      "\<forall>i'. i < i' \<and> i' < length (row_keys csv) \<and> i' < length (tgt_column csv f)
            \<longrightarrow> row_keys csv ! i' \<noteq> row_keys csv ! i"
    for f j i
  proof -
    have mj: "?m (row_keys csv ! i) = Some j"
      using build_map_last [OF that(1) that(5)] that(4) by simp
    have jn: "j < length ?init" using that(1) by (simp add: bar_keys_def)
    have later: "\<forall>i'. i < i' \<and> i' < length (row_keys csv) \<and> i' < length (tgt_column csv f)
        \<longrightarrow> ?m (row_keys csv ! i') \<noteq> Some j"
    proof (intro allI impI notI)
      fix i' assume a: "i < i' \<and> i' < length (row_keys csv) \<and> i' < length (tgt_column csv f)"
        and b: "?m (row_keys csv ! i') = Some j"
      from build_map_Some [OF b] have "bar_keys ohlcv ! j = row_keys csv ! i'" by simp
      with that(4) that(6) a show False by auto
    qed
    show ?thesis unfolding col
      by (rule align_col_written [OF that(2) that(3) mj jn later])
  qed
  have untouched: "tgt_aligned ?a f ! p = NaN"
    if "p < length (ohlcv_date ohlcv)"
      "\<forall>i. i < length (row_keys csv) \<and> i < length (tgt_column csv f)
            \<longrightarrow> ?m (row_keys csv ! i) \<noteq> Some p"
    for f p
    unfolding col using align_col_untouched [OF that(2), of ?init] that(1) by simp
  have absent: "align_row ?m csv (i, key) st = Inr st" if "key \<notin> set (bar_keys ohlcv)" for i key st
    using build_map_None [OF that] by (cases st) (simp add: align_row_def)
  show ?thesis
    apply (rule exI [of _ ?a])
    using run len written untouched absent by blast
qed


lemma example_bar_keys:
  "bar_keys example_ohlcv = [(20240101, 930), (20240101, 931), (20240101, 932)]"
  by (simp add: bar_keys_def example_ohlcv_def)

lemma example_row_keys:
  "row_keys example_csv = [(20240101, 930), (20240101, 932), (20240102, 930)]"
  by (simp add: row_keys_def example_csv_def)

lemma duplicate_row_keys: "row_keys duplicate_csv = [(20240101, 930), (20240101, 930)]"
  by (simp add: row_keys_def duplicate_csv_def)

lemma example_align:
  "align_data example_ohlcv example_csv
     = Inr ([Fin 1, NaN, Fin 3], [NaN, NaN, NaN], [NaN, NaN, NaN])"
  by code_simp

lemma duplicate_align:
  "align_data example_ohlcv duplicate_csv
     = Inr ([Fin 2, NaN, NaN], [NaN, NaN, NaN], [NaN, NaN, NaN])"
  by code_simp

theorem alignment_by_key_witness:
  "\<exists>a. align_data example_ohlcv example_csv = Inr a
     \<and> a = ([Fin 1, NaN, Fin 3], [NaN, NaN, NaN], [NaN, NaN, NaN])
     \<and> bar_keys example_ohlcv ! 2 = row_keys example_csv ! 1
     \<and> tgt_aligned a T115 ! 2 = tgt_column example_csv T115 ! 1
     \<and> tgt_aligned a T115 ! 1 = NaN
     \<and> (20240102, 930) \<notin> set (bar_keys example_ohlcv)
     \<and> align_row (build_map (bar_keys example_ohlcv)) example_csv (2, (20240102, 930)) a = Inr a"
proof -
  from alignment_by_key [of example_ohlcv example_csv]
  obtain a where run: "align_data example_ohlcv example_csv = Inr a"
    and written: "\<And>f j i. j < length (bar_keys example_ohlcv) \<and> i < length (row_keys example_csv)
            \<and> i < length (tgt_column example_csv f)
            \<and> bar_keys example_ohlcv ! j = row_keys example_csv ! i
            \<and> (\<forall>j'. j < j' \<and> j' < length (bar_keys example_ohlcv)
                   \<longrightarrow> bar_keys example_ohlcv ! j' \<noteq> bar_keys example_ohlcv ! j)
            \<and> (\<forall>i'. i < i' \<and> i' < length (row_keys example_csv)
                     \<and> i' < length (tgt_column example_csv f)
                   \<longrightarrow> row_keys example_csv ! i' \<noteq> row_keys example_csv ! i)
          \<Longrightarrow> tgt_aligned a f ! j = tgt_column example_csv f ! i"
    and untouched: "\<And>f p. p < length (ohlcv_date example_ohlcv)
            \<and> (\<forall>i. i < length (row_keys example_csv) \<and> i < length (tgt_column example_csv f)
                   \<longrightarrow> build_map (bar_keys example_ohlcv) (row_keys example_csv ! i) \<noteq> Some p)
          \<Longrightarrow> tgt_aligned a f ! p = NaN"
    and absent: "\<And>i key st. key \<notin> set (bar_keys example_ohlcv)
          \<Longrightarrow> align_row (build_map (bar_keys example_ohlcv)) example_csv (i, key) st = Inr st"
    by blast
  have a: "a = ([Fin 1, NaN, Fin 3], [NaN, NaN, NaN], [NaN, NaN, NaN])"
    using run example_align by simp
  have k: "bar_keys example_ohlcv ! 2 = row_keys example_csv ! 1"
    by (simp add: example_bar_keys example_row_keys)
  have lastbar: "\<forall>j'. 2 < j' \<and> j' < length (bar_keys example_ohlcv)
                   \<longrightarrow> bar_keys example_ohlcv ! j' \<noteq> bar_keys example_ohlcv ! 2"
    by (simp add: example_bar_keys)
  have lastrow: "\<forall>i'. 1 < i' \<and> i' < length (row_keys example_csv)
                     \<and> i' < length (tgt_column example_csv T115)
                   \<longrightarrow> row_keys example_csv ! i' \<noteq> row_keys example_csv ! 1"
  proof (intro allI impI)
    fix i' assume "1 < i' \<and> i' < length (row_keys example_csv)
                     \<and> i' < length (tgt_column example_csv T115)"
    then have "i' = 2" by (simp add: example_row_keys)
    then show "row_keys example_csv ! i' \<noteq> row_keys example_csv ! 1"
      by (simp add: example_row_keys)
  qed
  have col_len: "length (tgt_column example_csv T115) = 3"
    by (simp add: example_csv_def)
  have w: "tgt_aligned a T115 ! 2 = tgt_column example_csv T115 ! 1"
  proof (rule written, intro conjI)
    show "2 < length (bar_keys example_ohlcv)" by (simp add: example_bar_keys)
    show "1 < length (row_keys example_csv)" by (simp add: example_row_keys)
    show "1 < length (tgt_column example_csv T115)" unfolding col_len by simp
  qed (rule k lastbar lastrow)+
  have nolookup: "\<forall>i. i < length (row_keys example_csv) \<and> i < length (tgt_column example_csv T115)
                   \<longrightarrow> build_map (bar_keys example_ohlcv) (row_keys example_csv ! i) \<noteq> Some 1"
  proof (intro allI impI)
    fix i assume "i < length (row_keys example_csv) \<and> i < length (tgt_column example_csv T115)"
    then have "i = 0 \<or> i = 1 \<or> i = 2" by (auto simp: example_row_keys)
    then show "build_map (bar_keys example_ohlcv) (row_keys example_csv ! i) \<noteq> Some 1"
      by (auto simp: example_row_keys example_bar_keys build_map_def)
  qed
  have u: "tgt_aligned a T115 ! 1 = NaN"
  proof (rule untouched, intro conjI)
    show "1 < length (ohlcv_date example_ohlcv)" by (simp add: example_ohlcv_def)
  qed (rule nolookup)
  have n: "(20240102, 930) \<notin> set (bar_keys example_ohlcv)"
    by (simp add: example_bar_keys)
  from run a k w u n absent [OF n, of 2 a] show ?thesis by blast
qed

text \<open>
  C1 as stated fails on a duplicated key: two rows carry the key of bar 0, and the array
  holds the value of the second, not of the first.
\<close>

theorem alignment_every_pair_counterexample:
  "\<exists>a. align_data example_ohlcv duplicate_csv = Inr a
     \<and> 0 < length (bar_keys example_ohlcv) \<and> 0 < length (row_keys duplicate_csv)
     \<and> 0 < length (tgt_column duplicate_csv T115)
     \<and> bar_keys example_ohlcv ! 0 = row_keys duplicate_csv ! 0
     \<and> tgt_aligned a T115 ! 0 \<noteq> tgt_column duplicate_csv T115 ! 0"
  by (simp add: duplicate_align example_bar_keys duplicate_row_keys) (simp add: duplicate_csv_def)

text \<open>
  C5. Duplicate keys are last-write-wins at both stages. The index built from the bars maps
  a key to the position of its last occurrence. When two rows carry the same key, the key
  is in the index, and no later row carries it, the aligned value at the position of the
  key is the value of the later row.
\<close>

theorem duplicate_keys_last_write_wins:
  "(\<forall>j. j < length (bar_keys ohlcv)
        \<and> (\<forall>j'. j < j' \<and> j' < length (bar_keys ohlcv) \<longrightarrow> bar_keys ohlcv ! j' \<noteq> bar_keys ohlcv ! j)
      \<longrightarrow> build_map (bar_keys ohlcv) (bar_keys ohlcv ! j) = Some j)
   \<and> (\<exists>a. align_data ohlcv csv = Inr a
        \<and> (\<forall>f i1 i2 p. i1 < i2 \<and> i2 < length (row_keys csv) \<and> i2 < length (tgt_column csv f)
               \<and> row_keys csv ! i1 = row_keys csv ! i2
               \<and> build_map (bar_keys ohlcv) (row_keys csv ! i2) = Some p
               \<and> (\<forall>i'. i2 < i' \<and> i' < length (row_keys csv) \<and> i' < length (tgt_column csv f)
                      \<longrightarrow> row_keys csv ! i' \<noteq> row_keys csv ! i2)
             \<longrightarrow> tgt_aligned a f ! p = tgt_column csv f ! i2))"
proof -
  let ?m = "build_map (bar_keys ohlcv)"
  let ?rows = "enumerate 0 (row_keys csv)"
  let ?init = "replicate (length (ohlcv_date ohlcv)) NaN"
  let ?a = "(align_col ?m (TGT_115 csv) ?rows ?init,
             align_col ?m (TGT_315 csv) ?rows ?init,
             align_col ?m (TGT_555 csv) ?rows ?init)"
  have index: "\<forall>j. j < length (bar_keys ohlcv)
        \<and> (\<forall>j'. j < j' \<and> j' < length (bar_keys ohlcv) \<longrightarrow> bar_keys ohlcv ! j' \<noteq> bar_keys ohlcv ! j)
      \<longrightarrow> ?m (bar_keys ohlcv ! j) = Some j"
    using build_map_last by blast
  have run: "align_data ohlcv csv = Inr ?a"
    by (simp add: align_data_pure Let_def bar_keys_def row_keys_def)
  have later_wins: "tgt_aligned ?a f ! p = tgt_column csv f ! i2"
    if "i2 < length (row_keys csv)" "i2 < length (tgt_column csv f)"
      "?m (row_keys csv ! i2) = Some p"
      "\<forall>i'. i2 < i' \<and> i' < length (row_keys csv) \<and> i' < length (tgt_column csv f)
            \<longrightarrow> row_keys csv ! i' \<noteq> row_keys csv ! i2"
    for f i2 p
  proof -
    from build_map_Some [OF that(3)] have p: "p < length (bar_keys ohlcv)"
      and key: "bar_keys ohlcv ! p = row_keys csv ! i2" by simp_all
    have pn: "p < length ?init" using p by (simp add: bar_keys_def)
    have later: "\<forall>i'. i2 < i' \<and> i' < length (row_keys csv) \<and> i' < length (tgt_column csv f)
        \<longrightarrow> ?m (row_keys csv ! i') \<noteq> Some p"
    proof (intro allI impI notI)
      fix i' assume a: "i2 < i' \<and> i' < length (row_keys csv) \<and> i' < length (tgt_column csv f)"
        and b: "?m (row_keys csv ! i') = Some p"
      from build_map_Some [OF b] have "bar_keys ohlcv ! p = row_keys csv ! i'" by simp
      with key that(4) a show False by auto
    qed
    show ?thesis unfolding tgt_aligned_col
      by (rule align_col_written [OF that(1) that(2) that(3) pn later])
  qed
  show ?thesis
    apply (rule conjI [OF index])
    apply (rule exI [of _ ?a])
    using run later_wins by blast
qed

lemma duplicate_bar_keys:
  "bar_keys duplicate_ohlcv = [(20240101, 930), (20240101, 931), (20240101, 930)]"
  by (simp add: bar_keys_def duplicate_ohlcv_def)

lemma duplicate_both_align:
  "align_data duplicate_ohlcv duplicate_csv
     = Inr ([NaN, NaN, Fin 2], [NaN, NaN, NaN], [NaN, NaN, NaN])"
  by code_simp

theorem duplicate_keys_last_write_wins_witness:
  "bar_keys duplicate_ohlcv ! 0 = bar_keys duplicate_ohlcv ! 2
   \<and> build_map (bar_keys duplicate_ohlcv) (bar_keys duplicate_ohlcv ! 2) = Some 2
   \<and> row_keys duplicate_csv ! 0 = row_keys duplicate_csv ! 1
   \<and> (\<exists>a. align_data duplicate_ohlcv duplicate_csv = Inr a
        \<and> a = ([NaN, NaN, Fin 2], [NaN, NaN, NaN], [NaN, NaN, NaN])
        \<and> tgt_aligned a T115 ! 2 = tgt_column duplicate_csv T115 ! 1)"
proof -
  from duplicate_keys_last_write_wins [of duplicate_ohlcv duplicate_csv]
  obtain a where index: "\<And>j. j < length (bar_keys duplicate_ohlcv)
        \<and> (\<forall>j'. j < j' \<and> j' < length (bar_keys duplicate_ohlcv)
               \<longrightarrow> bar_keys duplicate_ohlcv ! j' \<noteq> bar_keys duplicate_ohlcv ! j)
      \<Longrightarrow> build_map (bar_keys duplicate_ohlcv) (bar_keys duplicate_ohlcv ! j) = Some j"
    and run: "align_data duplicate_ohlcv duplicate_csv = Inr a"
    and later_wins: "\<And>f i1 i2 p. i1 < i2 \<and> i2 < length (row_keys duplicate_csv)
               \<and> i2 < length (tgt_column duplicate_csv f)
               \<and> row_keys duplicate_csv ! i1 = row_keys duplicate_csv ! i2
               \<and> build_map (bar_keys duplicate_ohlcv) (row_keys duplicate_csv ! i2) = Some p
               \<and> (\<forall>i'. i2 < i' \<and> i' < length (row_keys duplicate_csv)
                        \<and> i' < length (tgt_column duplicate_csv f)
                      \<longrightarrow> row_keys duplicate_csv ! i' \<noteq> row_keys duplicate_csv ! i2)
             \<Longrightarrow> tgt_aligned a f ! p = tgt_column duplicate_csv f ! i2"
    by blast
  have b: "bar_keys duplicate_ohlcv ! 0 = bar_keys duplicate_ohlcv ! 2"
    by (simp add: duplicate_bar_keys)
  have i: "build_map (bar_keys duplicate_ohlcv) (bar_keys duplicate_ohlcv ! 2) = Some 2"
  proof (rule index, intro conjI)
    show "2 < length (bar_keys duplicate_ohlcv)" by (simp add: duplicate_bar_keys)
    show "\<forall>j'. 2 < j' \<and> j' < length (bar_keys duplicate_ohlcv)
               \<longrightarrow> bar_keys duplicate_ohlcv ! j' \<noteq> bar_keys duplicate_ohlcv ! 2"
      by (simp add: duplicate_bar_keys)
  qed
  have r: "row_keys duplicate_csv ! 0 = row_keys duplicate_csv ! 1"
    by (simp add: duplicate_row_keys)
  have a: "a = ([NaN, NaN, Fin 2], [NaN, NaN, NaN], [NaN, NaN, NaN])"
    using run duplicate_both_align by simp
  have col_len: "length (tgt_column duplicate_csv T115) = 2"
    by (simp add: duplicate_csv_def)
  have w: "tgt_aligned a T115 ! 2 = tgt_column duplicate_csv T115 ! 1"
  proof (rule later_wins [of 0], intro conjI)
    show "(0::nat) < 1" by simp
    show "1 < length (row_keys duplicate_csv)" by (simp add: duplicate_row_keys)
    show "1 < length (tgt_column duplicate_csv T115)" unfolding col_len by simp
    show "row_keys duplicate_csv ! 0 = row_keys duplicate_csv ! 1" by (rule r)
    show "build_map (bar_keys duplicate_ohlcv) (row_keys duplicate_csv ! 1) = Some 2"
      using i by (simp add: duplicate_row_keys duplicate_bar_keys)
    show "\<forall>i'. 1 < i' \<and> i' < length (row_keys duplicate_csv)
                        \<and> i' < length (tgt_column duplicate_csv T115)
                      \<longrightarrow> row_keys duplicate_csv ! i' \<noteq> row_keys duplicate_csv ! 1"
      by (simp add: duplicate_row_keys)
  qed
  from b i r run a w show ?thesis by blast
qed

section \<open>Properties of \<open>extract_computed_values\<close>\<close>

lemma scan_lines_spec:
  "scan_lines pint pfloat name ls in_section cv =
     snd (foldl (spec_step pint pfloat name) (mode_of in_section, cv)
            (first_section name (mode_of in_section) ls))"
proof (induction ls arbitrary: in_section cv)
  case Nil
  then show ?case by simp
next
  case (Cons l ls)
  show ?case
  proof (cases "is_header name l")
    case True
    then show ?thesis using Cons.IH [of True cv] by (simp add: spec_step_def)
  next
    case False
    show ?thesis
    proof (cases in_section)
      case True
      with False Cons.IH [of True] show ?thesis
        by (auto simp: spec_step_def Let_def split: option.splits)
    next
      case f: False
      with False Cons.IH [of False cv] show ?thesis
        by (simp add: spec_step_def)
    qed
  qed
qed

lemma first_section_prefix: "\<exists>post. ls = first_section name m ls @ post"
  by (induction ls arbitrary: m) auto

lemma first_section_all: "\<forall>l \<in> set ls. \<not> is_summary l \<Longrightarrow> first_section name m ls = ls"
  by (induction ls arbitrary: m) auto


text \<open>
  C3, as amended. The extractor is the two-state machine run on the lines up to and
  including the first summary line met while collecting: a header line enters the
  collecting state, a data line met while collecting adds its entry, any other line is
  ignored, and the summary line ends the scan for good, so that no later line (not even a
  later header) is read. On a text with no summary line the extractor is the two-state
  machine on the whole text.
\<close>

theorem extractor_is_state_machine_until_first_summary:
  "extract_computed_values pint pfloat text name
     = spec_machine pint pfloat name (first_section name Idle (split_lines text))
   \<and> (\<exists>post. split_lines text = first_section name Idle (split_lines text) @ post)
   \<and> (list_all (\<lambda>l. \<not> is_summary l) (split_lines text)
        \<longrightarrow> extract_computed_values pint pfloat text name
              = spec_machine pint pfloat name (split_lines text))
   \<and> (\<forall>l rest cv. \<not> is_header name l \<and> is_summary l
        \<longrightarrow> scan_lines pint pfloat name (l # rest) True cv
              = scan_lines pint pfloat name [l] True cv)"
proof -
  have eq: "extract_computed_values pint pfloat text name
     = spec_machine pint pfloat name (first_section name Idle (split_lines text))"
    using scan_lines_spec [of pint pfloat name "split_lines text" False Map.empty]
    by (simp add: extract_computed_values_def spec_machine_def)
  have whole: "list_all (\<lambda>l. \<not> is_summary l) (split_lines text)
        \<longrightarrow> extract_computed_values pint pfloat text name
              = spec_machine pint pfloat name (split_lines text)"
    using eq first_section_all [of "split_lines text" name Idle]
    by (simp add: list_all_iff)
  have stop: "\<forall>l rest cv. \<not> is_header name l \<and> is_summary l
        \<longrightarrow> scan_lines pint pfloat name (l # rest) True cv
              = scan_lines pint pfloat name [l] True cv"
    by (simp add: Let_def)
  from eq first_section_prefix [of "split_lines text" name Idle] whole stop
  show ?thesis by blast
qed

theorem extractor_is_state_machine_until_first_summary_witness:
  "list_all (\<lambda>l. \<not> is_summary l) (split_lines open_log)
   \<and> extract_computed_values ex_int ex_float open_log ''TGT_115''
       = spec_machine ex_int ex_float ''TGT_115'' (split_lines open_log)
   \<and> extract_computed_values ex_int ex_float open_log ''TGT_115'' 5 = Some (Fin (3 / 4))
   \<and> \<not> is_header ''TGT_115'' ''Summary: first'' \<and> is_summary ''Summary: first''
   \<and> scan_lines ex_int ex_float ''TGT_115''
        [''Summary: first'', ''TGT_115 Up=2'', ''6 0.5 0.25 Bar Expected''] True Map.empty
      = scan_lines ex_int ex_float ''TGT_115'' [''Summary: first''] True Map.empty"
proof -
  have h: "list_all (\<lambda>l. \<not> is_summary l) (split_lines open_log)" by code_simp
  have v: "extract_computed_values ex_int ex_float open_log ''TGT_115'' 5 = Some (Fin (3 / 4))"
    by code_simp
  have s1: "\<not> is_header ''TGT_115'' ''Summary: first''" by code_simp
  have s2: "is_summary ''Summary: first''" by code_simp
  note t = extractor_is_state_machine_until_first_summary [of ex_int ex_float _ "''TGT_115''"]
  from t [of open_log] h
  have e: "extract_computed_values ex_int ex_float open_log ''TGT_115''
       = spec_machine ex_int ex_float ''TGT_115'' (split_lines open_log)" by blast
  from t [of open_log] s1 s2
  have b: "scan_lines ex_int ex_float ''TGT_115''
        [''Summary: first'', ''TGT_115 Up=2'', ''6 0.5 0.25 Bar Expected''] True Map.empty
      = scan_lines ex_int ex_float ''TGT_115'' [''Summary: first''] True Map.empty" by blast
  from h e v s1 s2 b show ?thesis by blast
qed

text \<open>
  C3 as stated fails on a log with a second section of the same indicator: the two-state
  machine collects the entry of bar 6 after the first summary, the loop has left by then.
\<close>

theorem extractor_two_state_counterexample:
  "extract_computed_values ex_int ex_float example_log ''TGT_115''
     \<noteq> spec_machine ex_int ex_float ''TGT_115'' (split_lines example_log)"
proof
  assume "extract_computed_values ex_int ex_float example_log ''TGT_115''
     = spec_machine ex_int ex_float ''TGT_115'' (split_lines example_log)"
  then have "extract_computed_values ex_int ex_float example_log ''TGT_115'' 6
     = spec_machine ex_int ex_float ''TGT_115'' (split_lines example_log) 6" by simp
  moreover have "extract_computed_values ex_int ex_float example_log ''TGT_115'' 6 = None"
    by code_simp
  moreover have "spec_machine ex_int ex_float ''TGT_115'' (split_lines example_log) 6
      = Some (Fin (1 / 4))"
    by code_simp
  ultimately show False by simp
qed

section \<open>Properties of the comparison\<close>

lemma no_true_filter_id:
  "(\<forall>i. i < length xs \<and> i < length ys \<longrightarrow> \<not> P (xs ! i) (ys ! i)) \<Longrightarrow>
   filter id (map2 P xs ys) = []"
  by (auto simp: filter_empty_conv set_zip)

lemma no_true_np_where:
  "(\<forall>i. i < length xs \<and> i < length ys \<longrightarrow> \<not> P (xs ! i) (ys ! i)) \<Longrightarrow>
   np_where (map2 P xs ys) = []"
  by (auto simp: np_where_def filter_empty_conv)

lemma select_map2_fst:
  "select (map2 P xs ys) xs = map fst (filter (\<lambda>(a, b). P a b) (zip xs ys))"
proof (induction xs arbitrary: ys)
  case Nil
  then show ?case by (simp add: select_def)
next
  case (Cons x xs)
  then show ?case by (cases ys) (auto simp: select_def)
qed

lemma select_map2_snd:
  "select (map2 P xs ys) ys = map snd (filter (\<lambda>(a, b). P a b) (zip xs ys))"
proof (induction xs arbitrary: ys)
  case Nil
  then show ?case by (simp add: select_def)
next
  case (Cons x xs)
  then show ?case by (cases ys) (auto simp: select_def)
qed

lemma cmma_select:
  "select (cmma_valid_mask csv computed) csv = map fst (jointly_finite csv computed)"
  "select (cmma_valid_mask csv computed) computed = map snd (jointly_finite csv computed)"
  unfolding cmma_valid_mask_def jointly_finite_def both_finite_def
  by (rule select_map2_fst select_map2_snd)+

lemma map2_fst_snd: "map2 f (map fst zs) (map snd zs) = map (\<lambda>(a, b). f a b) zs"
  by (induction zs) auto

lemma create_comparison_plot_Plotted:
  assumes "create_comparison_plot corrcoef df indicator_name csv_col computed_col = Inr (Plotted r)"
  obtains csv computed where "df csv_col = Some csv" "df computed_col = Some computed"
    and "cp_csv_vals r = map fst (jointly_finite csv computed)"
    and "cp_computed_vals r = map snd (jointly_finite csv computed)"
    and "cp_diff r = map (\<lambda>(c, p). fsub p c) (jointly_finite csv computed)"
    and "cp_mae r = np_mean (map (\<lambda>(c, p). fabs (fsub p c)) (jointly_finite csv computed))"
    and "cp_ratio r = cmma_ratio (cp_csv_vals r) (cp_computed_vals r)"
    and "cp_corr r = corrcoef (cp_csv_vals r) (cp_computed_vals r)"
proof -
  from assms obtain csv computed bar where 1: "df csv_col = Some csv" "df computed_col = Some computed"
    and 2: "r = \<lparr> cp_x = select (cmma_valid_mask csv computed) bar,
             cp_csv_vals = select (cmma_valid_mask csv computed) csv,
             cp_computed_vals = select (cmma_valid_mask csv computed) computed,
             cp_diff = map2 fsub (select (cmma_valid_mask csv computed) computed)
                         (select (cmma_valid_mask csv computed) csv),
             cp_mae = np_mean (map fabs (map2 fsub (select (cmma_valid_mask csv computed) computed)
                         (select (cmma_valid_mask csv computed) csv))),
             cp_ratio = cmma_ratio (select (cmma_valid_mask csv computed) csv)
                          (select (cmma_valid_mask csv computed) computed),
             cp_corr = corrcoef (select (cmma_valid_mask csv computed) csv)
                          (select (cmma_valid_mask csv computed) computed) \<rparr>"
    by (auto simp: create_comparison_plot_def Let_def split: option.splits if_splits)
  have d: "zip (map snd zs) (map fst zs) = map prod.swap zs" for zs :: "(pyfloat \<times> pyfloat) list"
    by (induction zs) auto
  show ?thesis
    by (rule that [OF 1]) (simp_all add: 2 cmma_select d comp_def case_prod_unfold)
qed

lemma example_plot:
  "create_comparison_plot (\<lambda>a b. NaN) example_df ''CMMA_S'' ''csv_CMMA_S'' ''computed_CMMA_S''
    = Inr (Plotted example_cmma_plot)"
  by (simp add: create_comparison_plot_def example_df_def cmma_valid_mask_def select_def
      cmma_ratio_def double_1e_10_def np_mean_def fsum_def example_cmma_plot_def)

lemma filter_nth_count:
  assumes "j < length zs" "P (zs ! j)"
  shows "length (filter P (take j zs)) < length (filter P zs)"
    and "filter P zs ! length (filter P (take j zs)) = zs ! j"
proof -
  have "zs = take j zs @ zs ! j # drop (Suc j) zs" using assms(1) by (rule id_take_nth_drop)
  then have "filter P zs = filter P (take j zs @ zs ! j # drop (Suc j) zs)" by simp
  then have eq: "filter P zs = filter P (take j zs) @ zs ! j # filter P (drop (Suc j) zs)"
    using assms(2) by simp
  have "length (filter P zs) = length (filter P (take j zs) @ zs ! j # filter P (drop (Suc j) zs))"
    using eq by simp
  then show "length (filter P (take j zs)) < length (filter P zs)" by simp
  show "filter P zs ! length (filter P (take j zs)) = zs ! j"
    by (subst eq) (simp only: nth_append_length)
qed

text \<open>
  C6. Let \<open>create_comparison_plot\<close> plot the columns \<open>csv\<close> and \<open>computed\<close> of the
  data frame. The ratio array has one entry per valid position, in order. For every
  position \<open>j\<close> of the data frame at which both values are finite, the entry of that
  position is exactly 1.0 when the absolute value of the reference is at most \<open>1e-10\<close>
  (the double), whatever the computed value, and computed / reference otherwise.
\<close>

theorem ratio_epsilon_guard:
  assumes csv: "df csv_col = Some csv" and computed: "df computed_col = Some computed"
    and run: "create_comparison_plot corrcoef df indicator_name csv_col computed_col = Inr (Plotted r)"
  shows "length (cp_ratio r) = length (jointly_finite csv computed)
     \<and> (\<forall>j x y. j < length csv \<and> j < length computed \<and> csv ! j = Fin x \<and> computed ! j = Fin y
          \<longrightarrow> valid_before csv computed j < length (cp_ratio r)
            \<and> cp_csv_vals r ! valid_before csv computed j = Fin x
            \<and> cp_computed_vals r ! valid_before csv computed j = Fin y
            \<and> cp_ratio r ! valid_before csv computed j
                = (if \<bar>x\<bar> \<le> double_1e_10 then Fin 1 else Fin (y / x))
            \<and> (\<bar>x\<bar> > double_1e_10
                \<longrightarrow> cp_ratio r ! valid_before csv computed j = fdiv (computed ! j) (csv ! j)))"
proof -
  from run obtain csv' computed' where "df csv_col = Some csv'" "df computed_col = Some computed'"
    and c': "cp_csv_vals r = map fst (jointly_finite csv' computed')"
    and p': "cp_computed_vals r = map snd (jointly_finite csv' computed')"
    and ratio: "cp_ratio r = cmma_ratio (cp_csv_vals r) (cp_computed_vals r)"
    by (rule create_comparison_plot_Plotted)
  with csv computed have same: "csv' = csv" "computed' = computed" by simp_all
  let ?F = "jointly_finite csv computed"
  have c: "cp_csv_vals r = map fst ?F" and p: "cp_computed_vals r = map snd ?F"
    using c' p' same by simp_all
  have len: "length (cp_ratio r) = length ?F" by (simp add: ratio c p cmma_ratio_def)
  have at: "valid_before csv computed j < length (cp_ratio r)
            \<and> cp_csv_vals r ! valid_before csv computed j = Fin x
            \<and> cp_computed_vals r ! valid_before csv computed j = Fin y
            \<and> cp_ratio r ! valid_before csv computed j
                = (if \<bar>x\<bar> \<le> double_1e_10 then Fin 1 else Fin (y / x))
            \<and> (\<bar>x\<bar> > double_1e_10
                \<longrightarrow> cp_ratio r ! valid_before csv computed j = fdiv (computed ! j) (csv ! j))"
    if j: "j < length csv" "j < length computed" and x: "csv ! j = Fin x" and y: "computed ! j = Fin y"
    for j x y
  proof -
    let ?zs = "zip csv computed"
    let ?i = "valid_before csv computed j"
    have jz: "j < length ?zs" using j by simp
    have zj: "?zs ! j = (Fin x, Fin y)" using j x y by simp
    then have P: "both_finite (?zs ! j)" by (simp add: both_finite_def)
    have i: "?i = length (filter both_finite (take j ?zs))"
      by (simp add: valid_before_def jointly_finite_def take_zip)
    from filter_nth_count [where P = both_finite, OF jz P]
    have il: "?i < length ?F" and iv: "?F ! ?i = (Fin x, Fin y)"
      unfolding i jointly_finite_def using zj by simp_all
    have r: "cp_ratio r ! ?i = (if fgt (fabs (Fin x)) (Fin double_1e_10) then fdiv (Fin y) (Fin x) else Fin 1)"
      using il iv by (simp add: ratio c p cmma_ratio_def)
    have pos: "0 < double_1e_10" by (simp add: double_1e_10_def)
    show ?thesis using il iv r len x y pos by (auto simp: c p)
  qed
  from len at show ?thesis by blast
qed


lemma boundary_run:
  "create_comparison_plot (\<lambda>a b. NaN) boundary_df ''CMMA_S'' ''csv_CMMA_S'' ''computed_CMMA_S''
    = Inr (Plotted boundary_plot)"
  by (simp add: create_comparison_plot_def boundary_df_def cmma_valid_mask_def select_def
      cmma_ratio_def double_1e_10_def np_mean_def fsum_def boundary_plot_def)

theorem ratio_epsilon_guard_witness:
  "boundary_df ''csv_CMMA_S'' = Some [Fin double_1e_10, PInf, Fin 2]
   \<and> boundary_df ''computed_CMMA_S'' = Some [Fin 5, Fin 1, Fin 3]
   \<and> create_comparison_plot (\<lambda>a b. NaN) boundary_df ''CMMA_S'' ''csv_CMMA_S'' ''computed_CMMA_S''
       = Inr (Plotted boundary_plot)
   \<and> valid_before [Fin double_1e_10, PInf, Fin 2] [Fin 5, Fin 1, Fin 3] 0 = 0
   \<and> cp_ratio boundary_plot ! 0 = Fin 1
   \<and> valid_before [Fin double_1e_10, PInf, Fin 2] [Fin 5, Fin 1, Fin 3] 2 = 1
   \<and> cp_ratio boundary_plot ! 1 = fdiv (Fin 3) (Fin 2)
   \<and> length (cp_ratio boundary_plot) = 2"
proof -
  let ?csv = "[Fin double_1e_10, PInf, Fin 2]" and ?cmp = "[Fin 5, Fin 1, Fin 3]"
  have d1: "boundary_df ''csv_CMMA_S'' = Some ?csv" by (simp add: boundary_df_def)
  have d2: "boundary_df ''computed_CMMA_S'' = Some ?cmp" by (simp add: boundary_df_def)
  have v0: "valid_before ?csv ?cmp 0 = 0" by (simp add: valid_before_def jointly_finite_def)
  have v2: "valid_before ?csv ?cmp 2 = 1"
    by (simp add: valid_before_def jointly_finite_def both_finite_def)
  have n: "length (jointly_finite ?csv ?cmp) = 2"
    by (simp add: jointly_finite_def both_finite_def)
  note t = ratio_epsilon_guard [OF d1 d2 boundary_run]
  from t n have l: "length (cp_ratio boundary_plot) = 2" by simp
  from t have "(0::nat) < length ?csv \<and> 0 < length ?cmp \<and> ?csv ! 0 = Fin double_1e_10 \<and> ?cmp ! 0 = Fin 5
      \<longrightarrow> cp_ratio boundary_plot ! valid_before ?csv ?cmp 0
            = (if \<bar>double_1e_10\<bar> \<le> double_1e_10 then Fin 1 else Fin (5 / double_1e_10))" by blast
  moreover have "0 \<le> double_1e_10" by (simp add: double_1e_10_def)
  ultimately have r0: "cp_ratio boundary_plot ! 0 = Fin 1" using v0 by simp
  from t have "(2::nat) < length ?csv \<and> 2 < length ?cmp \<and> ?csv ! 2 = Fin 2 \<and> ?cmp ! 2 = Fin 3
      \<longrightarrow> (\<bar>2\<bar> > double_1e_10
                \<longrightarrow> cp_ratio boundary_plot ! valid_before ?csv ?cmp 2 = fdiv (?cmp ! 2) (?csv ! 2))" by blast
  moreover have "\<bar>2\<bar> > double_1e_10" by (simp add: double_1e_10_def)
  ultimately have r1: "cp_ratio boundary_plot ! 1 = fdiv (Fin 3) (Fin 2)" using v2 by simp
  from d1 d2 boundary_run v0 r0 v2 r1 l show ?thesis by blast
qed

lemma sorted_hd_le: "sorted xs \<Longrightarrow> x \<in> set xs \<Longrightarrow> hd xs \<le> (x::nat)"
  by (cases xs) auto

lemma sorted_le_last: "sorted xs \<Longrightarrow> x \<in> set xs \<Longrightarrow> (x::nat) \<le> last xs"
  by (induction xs) (auto split: if_splits)

lemma np_where_bounds:
  assumes "np_where valid \<noteq> []"
  shows "hd (np_where valid) \<le> last (np_where valid)"
    and "last (np_where valid) < length valid"
    and "\<And>i. i < hd (np_where valid) \<Longrightarrow> i < length valid \<Longrightarrow> \<not> valid ! i"
    and "\<And>i. last (np_where valid) < i \<Longrightarrow> i < length valid \<Longrightarrow> \<not> valid ! i"
proof -
  let ?xs = "np_where valid"
  have s: "sorted ?xs" unfolding np_where_def by (rule sorted_filter [where f = id, simplified]) simp
  have mem: "i \<in> set ?xs \<longleftrightarrow> i < length valid \<and> valid ! i" for i
    by (auto simp: np_where_def)
  from assms have l: "last ?xs \<in> set ?xs" by simp
  show "hd ?xs \<le> last ?xs" by (rule sorted_hd_le [OF s l])
  show "last ?xs < length valid" using l mem by blast
  show "\<not> valid ! i" if "i < hd ?xs" "i < length valid" for i
    using sorted_hd_le [OF s, of i] mem [of i] that by auto
  show "\<not> valid ! i" if "last ?xs < i" "i < length valid" for i
    using sorted_le_last [OF s, of i] mem [of i] that by auto
qed

lemma drop_nan_map_filter:
  assumes "\<And>z. \<not> P z \<Longrightarrow> isnan (g z)"
  shows "drop_nan (map g (filter P zs)) = drop_nan (map g zs)"
  using assms by (induction zs) (auto simp: drop_nan_def)

lemma drop_nan_all_nan:
  "(\<And>z. z \<in> set zs \<Longrightarrow> isnan (g z)) \<Longrightarrow> drop_nan (map g zs) = []"
  by (auto simp: drop_nan_def filter_empty_conv)

lemma drop_nan_append: "drop_nan (xs @ ys) = drop_nan xs @ drop_nan ys"
  by (simp add: drop_nan_def)

lemma slice_split:
  "a \<le> b \<Longrightarrow> zs = take a zs @ slice zs a b @ drop b zs"
proof -
  assume "a \<le> b"
  then have "drop a zs = take (b - a) (drop a zs) @ drop b zs"
    by (metis add_diff_inverse_nat append_take_drop_id drop_drop not_less add.commute)
  then show ?thesis unfolding slice_def by (metis append_take_drop_id)
qed

lemma drop_nan_slice:
  assumes nan: "\<And>z. \<not> P z \<Longrightarrow> isnan (g z)"
    and ab: "a \<le> b"
    and before: "\<And>i. i < a \<Longrightarrow> i < length zs \<Longrightarrow> \<not> P (zs ! i)"
    and after: "\<And>i. b \<le> i \<Longrightarrow> i < length zs \<Longrightarrow> \<not> P (zs ! i)"
  shows "drop_nan (map g (slice zs a b)) = drop_nan (map g (filter P zs))"
proof -
  have 1: "drop_nan (map g (take a zs)) = []"
  proof (rule drop_nan_all_nan)
    fix z assume "z \<in> set (take a zs)"
    then obtain i where "i < length (take a zs)" "take a zs ! i = z"
      by (auto simp: in_set_conv_nth)
    then have "i < a" "i < length zs" "zs ! i = z" by simp_all
    with before nan show "isnan (g z)" by blast
  qed
  have 2: "drop_nan (map g (drop b zs)) = []"
  proof (rule drop_nan_all_nan)
    fix z assume "z \<in> set (drop b zs)"
    then obtain i where "i < length (drop b zs)" "drop b zs ! i = z"
      by (auto simp: in_set_conv_nth)
    then have "b \<le> b + i" "b + i < length zs" "zs ! (b + i) = z" by simp_all
    with after nan show "isnan (g z)" by blast
  qed
  have "drop_nan (map g zs)
      = drop_nan (map g (take a zs)) @ drop_nan (map g (slice zs a b)) @ drop_nan (map g (drop b zs))"
    by (subst slice_split [OF ab, of zs]) (simp only: map_append drop_nan_append)
  with 1 2 have "drop_nan (map g zs) = drop_nan (map g (slice zs a b))" by simp
  with drop_nan_map_filter [of P g zs, OF nan] show ?thesis by simp
qed


lemma abs_error_nan: "\<not> both_present z \<Longrightarrow> isnan (abs_error z)"
  by (cases z; cases "fst z"; cases "snd z") (auto simp: both_present_def abs_error_def)

lemma rel_error_nan: "\<not> both_present z \<Longrightarrow> isnan (rel_error z)"
  by (cases z; cases "fst z"; cases "snd z") (auto simp: both_present_def rel_error_def)

lemma slice_zip: "slice (zip xs ys) a b = zip (slice xs a b) (slice ys a b)"
  by (simp add: slice_def take_zip drop_zip)

lemma zip_swap: "zip ys xs = map prod.swap (zip xs ys)"
  by (induction xs arbitrary: ys) (case_tac ys; simp)+

lemma map2_snd_fst: "map2 f (map snd zs) (map fst zs) = map (\<lambda>(r, c). f c r) zs"
  by (induction zs) auto

lemma hm_valid_nth:
  "i < length csv_vals \<Longrightarrow> i < length computed_vals \<Longrightarrow>
   hm_valid csv_vals computed_vals ! i = both_present (zip csv_vals computed_vals ! i)"
  by (simp add: hm_valid_def both_present_def)

lemma np_nanmax_drop_nan:
  "np_nanmax xs = (if xs = [] then Inl ValueError
                   else Inr (case drop_nan xs of [] \<Rightarrow> NaN | y # ys \<Rightarrow> foldl fmax y ys))"
  by (simp add: np_nanmax_def drop_nan_def split: list.splits)

lemma compare_indicator_Plotted:
  assumes len: "length csv_vals = length computed_vals"
    and ne: "np_where (hm_valid csv_vals computed_vals) \<noteq> []"
  obtains r where "compare_indicator name csv_vals computed_vals = Inr (Plotted r)"
    and "hp_mae r = np_mean (drop_nan (map abs_error (jointly_present csv_vals computed_vals)))"
    and "hp_max_error r =
           (case drop_nan (map abs_error (jointly_present csv_vals computed_vals)) of
              [] \<Rightarrow> NaN | y # ys \<Rightarrow> foldl fmax y ys)"
    and "hp_mean_rel_error r =
           fmul (np_mean (drop_nan (map rel_error (jointly_present csv_vals computed_vals)))) (Fin 100)"
proof -
  let ?valid = "hm_valid csv_vals computed_vals"
  let ?zs = "zip csv_vals computed_vals"
  let ?a = "hd (np_where ?valid)" and ?e = "last (np_where ?valid)"
  let ?b = "?e + 1"
  let ?sl = "slice ?zs ?a ?b"
  have lv: "length ?valid = length csv_vals" using len by (simp add: hm_valid_def)
  note nb = np_where_bounds [OF ne]
  have ab: "?a \<le> ?b" using nb(1) by simp
  have before: "\<not> both_present (?zs ! i)" if "i < ?a" "i < length ?zs" for i
    using nb(3) [of i] that hm_valid_nth [of i csv_vals computed_vals] lv len by simp
  have after: "\<not> both_present (?zs ! i)" if "?b \<le> i" "i < length ?zs" for i
    using nb(4) [of i] that hm_valid_nth [of i csv_vals computed_vals] lv len by simp
  have ref: "slice csv_vals ?a ?b = map fst ?sl"
    using len by (simp add: slice_def take_map [symmetric] drop_map [symmetric])
  have cmp: "slice computed_vals ?a ?b = map snd ?sl"
    using len by (simp add: slice_def take_map [symmetric] drop_map [symmetric])
  have diff: "map2 fsub (map snd ?sl) (map fst ?sl) = map (\<lambda>(r, c). fsub c r) ?sl"
    by (rule map2_snd_fst)
  have absd: "map fabs (map (\<lambda>(r, c). fsub c r) ?sl) = map abs_error ?sl"
    by (simp add: abs_error_def case_prod_unfold comp_def)
  have reld: "map fabs (map2 fdiv (map (\<lambda>(r, c). fsub c r) ?sl) (map fst ?sl)) = map rel_error ?sl"
    by (simp add: rel_error_def case_prod_unfold comp_def zip_map_map zip_same_conv_map)
  have A: "drop_nan (map abs_error ?sl) = drop_nan (map abs_error (jointly_present csv_vals computed_vals))"
    unfolding jointly_present_def
    by (rule drop_nan_slice [where P = both_present and g = abs_error, OF abs_error_nan ab before after])
  have R: "drop_nan (map rel_error ?sl) = drop_nan (map rel_error (jointly_present csv_vals computed_vals))"
    unfolding jointly_present_def
    by (rule drop_nan_slice [where P = both_present and g = rel_error, OF rel_error_nan ab before after])
  have sl_ne: "?sl \<noteq> []"
    using nb(1,2) lv len by (simp add: slice_def)
  let ?r = "\<lparr> hp_start_idx = ?a, hp_end_idx = ?e,
             hp_diff = map (\<lambda>(r, c). fsub c r) ?sl,
             hp_mae = np_nanmean (map abs_error ?sl),
             hp_max_error = (case drop_nan (map abs_error ?sl) of [] \<Rightarrow> NaN | y # ys \<Rightarrow> foldl fmax y ys),
             hp_mean_rel_error = fmul (np_nanmean (map rel_error ?sl)) (Fin 100) \<rparr>"
  have run: "compare_indicator name csv_vals computed_vals = Inr (Plotted ?r)"
    unfolding compare_indicator_def Let_def ref cmp diff absd reld
    using ne sl_ne by (simp add: np_nanmax_drop_nan)
  have nm: "np_nanmean xs = np_mean (drop_nan xs)" for xs
    by (simp add: np_nanmean_def drop_nan_def)
  show ?thesis
    by (rule that [OF run]) (simp_all only: hm_plot.simps nm A R)
qed


lemma np_where_nonempty:
  assumes "i < length csv_vals" "i < length computed_vals"
    and "\<not> isnan (csv_vals ! i)" "\<not> isnan (computed_vals ! i)"
  shows "np_where (hm_valid csv_vals computed_vals) \<noteq> []"
proof -
  have "i \<in> set (np_where (hm_valid csv_vals computed_vals))"
    using assms by (simp add: np_where_def hm_valid_def)
  then show ?thesis by auto
qed

lemma rel_error_Fin:
  "rel_error (Fin x, Fin y) =
     (if x = 0 then (if y = 0 then NaN else PInf) else Fin \<bar>(y - x) / x\<bar>)"
  by (simp add: rel_error_def)

text \<open>
  C4, as amended. With two series of one length and a position where neither is NaN, the
  mean relative error is 100 times the mean of \<open>|difference / reference|\<close> over the
  positions where neither value is NaN and the quotient is not NaN. On finite values the
  quotient is NaN only for a zero difference over a zero reference; a zero reference
  under a nonzero difference gives an infinite quotient, which stays in the mean.
\<close>

theorem mean_rel_error_skips_only_nan:
  assumes "length csv_vals = length computed_vals"
    and "i < length csv_vals"
    and "\<not> isnan (csv_vals ! i)" and "\<not> isnan (computed_vals ! i)"
  shows "\<exists>r. compare_indicator name csv_vals computed_vals = Inr (Plotted r)
           \<and> hp_mean_rel_error r =
               fmul (np_mean (drop_nan (map rel_error (jointly_present csv_vals computed_vals))))
                    (Fin 100)
           \<and> (\<forall>x y. rel_error (Fin x, Fin y) =
                 (if x = 0 then (if y = 0 then NaN else PInf) else Fin \<bar>(y - x) / x\<bar>))"
proof -
  from assms have "np_where (hm_valid csv_vals computed_vals) \<noteq> []"
    by (intro np_where_nonempty [of i]) simp_all
  from compare_indicator_Plotted [OF assms(1) this, of name]
  obtain r where "compare_indicator name csv_vals computed_vals = Inr (Plotted r)"
    and "hp_mean_rel_error r =
           fmul (np_mean (drop_nan (map rel_error (jointly_present csv_vals computed_vals)))) (Fin 100)"
    by blast
  with rel_error_Fin show ?thesis by blast
qed

lemma zero_reference_run:
  "compare_indicator ''TGT_115'' [Fin 0, Fin 2] [Fin 1, Fin 3] = Inr (Plotted zero_reference_plot)"
  by code_simp

theorem mean_rel_error_skips_only_nan_witness:
  "length [Fin 2, Fin 4, NaN, Fin 0] = length [Fin 1, Fin 3, Fin 1, Fin 0]
   \<and> (1::nat) < length [Fin 2, Fin 4, NaN, Fin 0]
   \<and> \<not> isnan ([Fin 2, Fin 4, NaN, Fin 0] ! 1) \<and> \<not> isnan ([Fin 1, Fin 3, Fin 1, Fin 0] ! 1)
   \<and> (\<exists>r. compare_indicator ''TGT_115'' [Fin 2, Fin 4, NaN, Fin 0] [Fin 1, Fin 3, Fin 1, Fin 0]
             = Inr (Plotted r)
          \<and> hp_mean_rel_error r = Fin (75 / 2))"
proof -
  let ?csv = "[Fin 2, Fin 4, NaN, Fin 0]" and ?cmp = "[Fin 1, Fin 3, Fin 1, Fin 0]"
  have h1: "length ?csv = length ?cmp" by simp
  have h2: "(1::nat) < length ?csv" by simp
  have h3: "\<not> isnan (?csv ! 1)" by simp
  have h4: "\<not> isnan (?cmp ! 1)" by simp
  from mean_rel_error_skips_only_nan [OF h1 h2 h3 h4, of "''TGT_115''"]
  obtain r where run: "compare_indicator ''TGT_115'' ?csv ?cmp = Inr (Plotted r)"
    and m: "hp_mean_rel_error r = fmul (np_mean (drop_nan (map rel_error (jointly_present ?csv ?cmp)))) (Fin 100)"
    by blast
  have "fmul (np_mean (drop_nan (map rel_error (jointly_present ?csv ?cmp)))) (Fin 100) = Fin (75 / 2)"
    by (simp add: jointly_present_def both_present_def rel_error_def drop_nan_def np_mean_def fsum_def)
  with run m show ?thesis by auto
qed

text \<open>
  C4 as stated fails where the reference is zero and the computed value is not: the code's
  mean is infinite, the mean over the positions with a nonzero reference is 50.
\<close>

theorem mean_rel_error_zero_reference_counterexample:
  "compare_indicator ''TGT_115'' [Fin 0, Fin 2] [Fin 1, Fin 3] = Inr (Plotted zero_reference_plot)
   \<and> hp_mean_rel_error zero_reference_plot = PInf
   \<and> spec_mean_rel_error [Fin 0, Fin 2] [Fin 1, Fin 3] = Fin 50"
proof -
  have "spec_mean_rel_error [Fin 0, Fin 2] [Fin 1, Fin 3] = Fin 50"
    by (simp add: spec_mean_rel_error_def np_mean_def fsum_def)
  with zero_reference_run show ?thesis by (simp add: zero_reference_plot_def)
qed

lemma example_hm_run:
  "compare_indicator ''TGT_115'' [Fin 2, Fin 4, NaN, Fin 0] [Fin 1, Fin 3, Fin 1, Fin 0]
     = Inr (Plotted example_hm_plot)"
  by code_simp

lemma infinite_reference_run:
  "compare_indicator ''TGT_115'' [PInf] [Fin 1] = Inr (Plotted infinite_reference_plot)"
  by code_simp

text \<open>
  C2, as amended. In \<open>create_comparison_plot\<close> the mask is true at a position exactly when
  both values are finite, and the MAE and the correlation are computed from the pairs at
  the mask-true positions and nothing else. In the loop of \<open>plot_hit_or_miss.py\<close> the
  mask is true exactly when neither value is NaN, so that an infinite value counts as
  valid; the MAE and the max error are computed only from mask-true positions, those among
  them whose difference is not NaN.
\<close>

theorem validity_masks_and_statistics:
  "(\<forall>i. i < length csv \<and> i < length computed
        \<longrightarrow> cmma_valid_mask csv computed ! i = (isfinite (csv ! i) \<and> isfinite (computed ! i)))
   \<and> (df csv_col = Some csv \<and> df computed_col = Some computed
       \<and> create_comparison_plot corrcoef df indicator_name csv_col computed_col = Inr (Plotted r)
        \<longrightarrow> cp_mae r = np_mean (map abs_error (jointly_finite csv computed))
          \<and> cp_corr r = corrcoef (map fst (jointly_finite csv computed))
                                 (map snd (jointly_finite csv computed)))
   \<and> (\<forall>i. i < length csv_vals \<and> i < length computed_vals
        \<longrightarrow> hm_valid csv_vals computed_vals ! i
              = (\<not> isnan (csv_vals ! i) \<and> \<not> isnan (computed_vals ! i)))
   \<and> (length csv_vals = length computed_vals
       \<and> compare_indicator name csv_vals computed_vals = Inr (Plotted p)
        \<longrightarrow> hp_mae p = np_mean (drop_nan (map abs_error (jointly_present csv_vals computed_vals)))
          \<and> hp_max_error p =
              (case drop_nan (map abs_error (jointly_present csv_vals computed_vals)) of
                 [] \<Rightarrow> NaN | y # ys \<Rightarrow> foldl fmax y ys))"
proof -
  have m1: "\<forall>i. i < length csv \<and> i < length computed
        \<longrightarrow> cmma_valid_mask csv computed ! i = (isfinite (csv ! i) \<and> isfinite (computed ! i))"
    by (simp add: cmma_valid_mask_def)
  have m2: "\<forall>i. i < length csv_vals \<and> i < length computed_vals
        \<longrightarrow> hm_valid csv_vals computed_vals ! i
              = (\<not> isnan (csv_vals ! i) \<and> \<not> isnan (computed_vals ! i))"
    by (simp add: hm_valid_def)
  have s1: "cp_mae r = np_mean (map abs_error (jointly_finite csv computed))
          \<and> cp_corr r = corrcoef (map fst (jointly_finite csv computed))
                                 (map snd (jointly_finite csv computed))"
    if "df csv_col = Some csv" "df computed_col = Some computed"
      "create_comparison_plot corrcoef df indicator_name csv_col computed_col = Inr (Plotted r)"
  proof -
    from that(3) obtain csv' computed' where "df csv_col = Some csv'" "df computed_col = Some computed'"
      and c: "cp_csv_vals r = map fst (jointly_finite csv' computed')"
      and p: "cp_computed_vals r = map snd (jointly_finite csv' computed')"
      and mae: "cp_mae r = np_mean (map (\<lambda>(c, p). fabs (fsub p c)) (jointly_finite csv' computed'))"
      and corr: "cp_corr r = corrcoef (cp_csv_vals r) (cp_computed_vals r)"
      by (rule create_comparison_plot_Plotted)
    with that(1,2) have "csv' = csv" "computed' = computed" by simp_all
    with c p mae corr show ?thesis by (simp add: abs_error_def)
  qed
  have s2: "hp_mae p = np_mean (drop_nan (map abs_error (jointly_present csv_vals computed_vals)))
          \<and> hp_max_error p =
              (case drop_nan (map abs_error (jointly_present csv_vals computed_vals)) of
                 [] \<Rightarrow> NaN | y # ys \<Rightarrow> foldl fmax y ys)"
    if "length csv_vals = length computed_vals"
      "compare_indicator name csv_vals computed_vals = Inr (Plotted p)"
  proof -
    have ne: "np_where (hm_valid csv_vals computed_vals) \<noteq> []"
      using that(2) by (auto simp: compare_indicator_def Let_def split: if_splits)
    from compare_indicator_Plotted [OF that(1) ne, of name] that(2)
    show ?thesis by auto
  qed
  from m1 m2 s1 s2 show ?thesis by blast
qed

theorem validity_masks_and_statistics_witness:
  "example_df ''csv_CMMA_S'' = Some [Fin 2, Fin 0, NaN, Fin (1 / 10 ^ 11)]
   \<and> example_df ''computed_CMMA_S'' = Some [Fin 3, Fin 5, Fin 1, Fin 7]
   \<and> create_comparison_plot (\<lambda>a b. NaN) example_df ''CMMA_S'' ''csv_CMMA_S'' ''computed_CMMA_S''
       = Inr (Plotted example_cmma_plot)
   \<and> cmma_valid_mask [Fin 2, Fin 0, NaN, Fin (1 / 10 ^ 11)] [Fin 3, Fin 5, Fin 1, Fin 7] ! 2 = False
   \<and> cp_mae example_cmma_plot
       = np_mean (map abs_error
           (jointly_finite [Fin 2, Fin 0, NaN, Fin (1 / 10 ^ 11)] [Fin 3, Fin 5, Fin 1, Fin 7]))
   \<and> length [Fin 2, Fin 4, NaN, Fin 0] = length [Fin 1, Fin 3, Fin 1, Fin 0]
   \<and> compare_indicator ''TGT_115'' [Fin 2, Fin 4, NaN, Fin 0] [Fin 1, Fin 3, Fin 1, Fin 0]
       = Inr (Plotted example_hm_plot)
   \<and> hm_valid [Fin 2, Fin 4, NaN, Fin 0] [Fin 1, Fin 3, Fin 1, Fin 0] ! 2 = False
   \<and> hp_mae example_hm_plot
       = np_mean (drop_nan (map abs_error
           (jointly_present [Fin 2, Fin 4, NaN, Fin 0] [Fin 1, Fin 3, Fin 1, Fin 0])))
   \<and> hp_mae example_hm_plot = Fin (2 / 3)"
proof -
  let ?csv = "[Fin 2, Fin 0, NaN, Fin (1 / 10 ^ 11)]" and ?cmp = "[Fin 3, Fin 5, Fin 1, Fin 7]"
  let ?c = "[Fin 2, Fin 4, NaN, Fin 0]" and ?p = "[Fin 1, Fin 3, Fin 1, Fin 0]"
  have d1: "example_df ''csv_CMMA_S'' = Some ?csv" by (simp add: example_df_def)
  have d2: "example_df ''computed_CMMA_S'' = Some ?cmp" by (simp add: example_df_def)
  have l: "length ?c = length ?p" by simp
  note t = validity_masks_and_statistics [of ?csv ?cmp example_df "''csv_CMMA_S''"
      "''computed_CMMA_S''" "\<lambda>a b. NaN" "''CMMA_S''" example_cmma_plot ?c ?p "''TGT_115''"
      example_hm_plot]
  from t have "(2::nat) < length ?csv \<and> 2 < length ?cmp
      \<longrightarrow> cmma_valid_mask ?csv ?cmp ! 2 = (isfinite (?csv ! 2) \<and> isfinite (?cmp ! 2))" by blast
  then have a: "cmma_valid_mask ?csv ?cmp ! 2 = False" by simp
  from t d1 d2 example_plot
  have b: "cp_mae example_cmma_plot = np_mean (map abs_error (jointly_finite ?csv ?cmp))" by blast
  from t have "(2::nat) < length ?c \<and> 2 < length ?p
      \<longrightarrow> hm_valid ?c ?p ! 2 = (\<not> isnan (?c ! 2) \<and> \<not> isnan (?p ! 2))" by blast
  then have c: "hm_valid ?c ?p ! 2 = False" by simp
  from t l example_hm_run
  have d: "hp_mae example_hm_plot = np_mean (drop_nan (map abs_error (jointly_present ?c ?p)))"
    by blast
  have e: "hp_mae example_hm_plot = Fin (2 / 3)" by (simp add: example_hm_plot_def)
  from d1 d2 example_plot a b l example_hm_run c d e show ?thesis by blast
qed

text \<open>
  C2 as stated fails in \<open>plot_hit_or_miss.py\<close> on an infinite reference value: the mask
  is true at a position whose reference is not finite, and the MAE is infinite.
\<close>

theorem mask_not_nan_counterexample:
  "hm_valid [PInf] [Fin 1] ! 0
   \<and> \<not> (isfinite ([PInf] ! 0) \<and> isfinite ([Fin 1] ! 0))
   \<and> compare_indicator ''TGT_115'' [PInf] [Fin 1] = Inr (Plotted infinite_reference_plot)
   \<and> hp_mae infinite_reference_plot = PInf"
  using infinite_reference_run by (simp add: hm_valid_def infinite_reference_plot_def)

text \<open>
  C7, as amended. When the mask of the comparison is true at no position (both values
  finite for \<open>create_comparison_plot\<close>, both values not NaN for the loop of
  \<open>plot_hit_or_miss.py\<close>), the comparison of the field is the warning and nothing else:
  no exception, no statistics, and the loop over the indicators goes on with the remaining
  fields. In \<open>plot_hit_or_miss.py\<close> a position where neither value is NaN is enough for
  the field to be compared, an infinite value included.
\<close>

theorem no_valid_data_is_a_warning:
  "(df csv_col = Some csv \<and> df computed_col = Some computed
      \<and> (\<forall>i. i < length csv \<and> i < length computed
             \<longrightarrow> \<not> (isfinite (csv ! i) \<and> isfinite (computed ! i)))
    \<longrightarrow> create_comparison_plot corrcoef df indicator_name csv_col computed_col
          = Inr (NoValidData (''WARNING: No valid data for '' @ indicator_name)))
   \<and> ((\<forall>i. i < length csv_vals \<and> i < length computed_vals
             \<longrightarrow> \<not> (\<not> isnan (csv_vals ! i) \<and> \<not> isnan (computed_vals ! i)))
    \<longrightarrow> compare_indicator name csv_vals computed_vals
          = Inr (NoValidData (''Warning: No valid data for '' @ name))
      \<and> compare_all ((name, csv_vals, computed_vals) # rest)
          = (case compare_all rest of
               Inl e \<Rightarrow> Inl e
             | Inr outs \<Rightarrow> Inr (NoValidData (''Warning: No valid data for '' @ name) # outs)))
   \<and> (length csv_vals = length computed_vals
       \<and> (\<exists>i. i < length csv_vals \<and> \<not> isnan (csv_vals ! i) \<and> \<not> isnan (computed_vals ! i))
      \<longrightarrow> (\<exists>p. compare_indicator name csv_vals computed_vals = Inr (Plotted p)))"
proof -
  have a: "create_comparison_plot corrcoef df indicator_name csv_col computed_col
          = Inr (NoValidData (''WARNING: No valid data for '' @ indicator_name))"
    if "df csv_col = Some csv" "df computed_col = Some computed"
      "\<forall>i. i < length csv \<and> i < length computed
             \<longrightarrow> \<not> (isfinite (csv ! i) \<and> isfinite (computed ! i))"
    using that(1,2) no_true_filter_id [OF that(3)]
    by (simp add: create_comparison_plot_def cmma_valid_mask_def)
  have b: "compare_indicator name csv_vals computed_vals
          = Inr (NoValidData (''Warning: No valid data for '' @ name))"
    if "\<forall>i. i < length csv_vals \<and> i < length computed_vals
             \<longrightarrow> \<not> (\<not> isnan (csv_vals ! i) \<and> \<not> isnan (computed_vals ! i))"
    using no_true_np_where [OF that]
    by (simp add: compare_indicator_def hm_valid_def)
  have c: "compare_all ((name, csv_vals, computed_vals) # rest)
          = (case compare_all rest of
               Inl e \<Rightarrow> Inl e
             | Inr outs \<Rightarrow> Inr (NoValidData (''Warning: No valid data for '' @ name) # outs))"
    if "\<forall>i. i < length csv_vals \<and> i < length computed_vals
             \<longrightarrow> \<not> (\<not> isnan (csv_vals ! i) \<and> \<not> isnan (computed_vals ! i))"
    by (simp add: b [OF that] split: sum.splits)
  have d: "\<exists>p. compare_indicator name csv_vals computed_vals = Inr (Plotted p)"
    if "length csv_vals = length computed_vals"
      "\<exists>i. i < length csv_vals \<and> \<not> isnan (csv_vals ! i) \<and> \<not> isnan (computed_vals ! i)"
  proof -
    from that obtain i where "i < length csv_vals" "i < length computed_vals"
      "\<not> isnan (csv_vals ! i)" "\<not> isnan (computed_vals ! i)" by auto
    then have "np_where (hm_valid csv_vals computed_vals) \<noteq> []" by (rule np_where_nonempty)
    from compare_indicator_Plotted [OF that(1) this, of name] show ?thesis by blast
  qed
  from a b c d show ?thesis by blast
qed

theorem no_valid_data_is_a_warning_witness:
  "[''csv'' \<mapsto> [Fin 1, NaN], ''computed'' \<mapsto> [NaN, Fin 2], ''bar'' \<mapsto> [Fin 0, Fin 1]] ''csv''
     = Some [Fin 1, NaN]
   \<and> [''csv'' \<mapsto> [Fin 1, NaN], ''computed'' \<mapsto> [NaN, Fin 2], ''bar'' \<mapsto> [Fin 0, Fin 1]] ''computed''
     = Some [NaN, Fin 2]
   \<and> create_comparison_plot (\<lambda>a b. NaN)
        [''csv'' \<mapsto> [Fin 1, NaN], ''computed'' \<mapsto> [NaN, Fin 2], ''bar'' \<mapsto> [Fin 0, Fin 1]]
        ''CMMA_S'' ''csv'' ''computed''
       = Inr (NoValidData ''WARNING: No valid data for CMMA_S'')
   \<and> compare_all [(''TGT_115'', [Fin 1, NaN], [NaN, Fin 2]), (''TGT_315'', [Fin 1], [Fin 3])]
       = Inr [NoValidData ''Warning: No valid data for TGT_115'',
              Plotted \<lparr> hp_start_idx = 0, hp_end_idx = 0, hp_diff = [Fin 2], hp_mae = Fin 2,
                        hp_max_error = Fin 2, hp_mean_rel_error = Fin 200 \<rparr>]
   \<and> (\<exists>p. compare_indicator ''TGT_315'' [PInf] [Fin 3] = Inr (Plotted p))"
proof -
  let ?df = "[''csv'' \<mapsto> [Fin 1, NaN], ''computed'' \<mapsto> [NaN, Fin 2], ''bar'' \<mapsto> [Fin 0, Fin 1]]"
  have h1: "?df ''csv'' = Some [Fin 1, NaN]" by simp
  have h2: "?df ''computed'' = Some [NaN, Fin 2]" by simp
  have h3: "\<forall>i. i < length [Fin 1, NaN] \<and> i < length [NaN, Fin 2]
             \<longrightarrow> \<not> (isfinite ([Fin 1, NaN] ! i) \<and> isfinite ([NaN, Fin 2] ! i))"
    by (auto simp: less_Suc_eq)
  have h4: "\<forall>i. i < length [Fin 1, NaN] \<and> i < length [NaN, Fin 2]
             \<longrightarrow> \<not> (\<not> isnan ([Fin 1, NaN] ! i) \<and> \<not> isnan ([NaN, Fin 2] ! i))"
    by (auto simp: less_Suc_eq)
  note t = no_valid_data_is_a_warning [of ?df "''csv''" "[Fin 1, NaN]" "''computed''" "[NaN, Fin 2]"
      "\<lambda>a b. NaN" "''CMMA_S''" "[Fin 1, NaN]" "[NaN, Fin 2]" "''TGT_115''"
      "[(''TGT_315'', [Fin 1], [Fin 3])]"]
  have rest: "compare_all [(''TGT_315'', [Fin 1], [Fin 3])]
       = Inr [Plotted \<lparr> hp_start_idx = 0, hp_end_idx = 0, hp_diff = [Fin 2], hp_mae = Fin 2,
                        hp_max_error = Fin 2, hp_mean_rel_error = Fin 200 \<rparr>]"
    by code_simp
  from t h1 h2 h3 have c: "create_comparison_plot (\<lambda>a b. NaN) ?df ''CMMA_S'' ''csv'' ''computed''
       = Inr (NoValidData (''WARNING: No valid data for '' @ ''CMMA_S''))" by blast
  from t h4 have d: "compare_all ((''TGT_115'', [Fin 1, NaN], [NaN, Fin 2]) # [(''TGT_315'', [Fin 1], [Fin 3])])
          = (case compare_all [(''TGT_315'', [Fin 1], [Fin 3])] of
               Inl e \<Rightarrow> Inl e
             | Inr outs \<Rightarrow> Inr (NoValidData (''Warning: No valid data for '' @ ''TGT_115'') # outs))"
    by blast
  have "length [PInf] = length [Fin 3]
       \<and> (\<exists>i. i < length [PInf] \<and> \<not> isnan ([PInf] ! i) \<and> \<not> isnan ([Fin 3] ! i))"
    by simp
  with no_valid_data_is_a_warning [of ?df "''csv''" "[Fin 1, NaN]" "''computed''" "[NaN, Fin 2]"
      "\<lambda>a b. NaN" "''CMMA_S''" "[PInf]" "[Fin 3]" "''TGT_315''" "[]"]
  have e: "\<exists>p. compare_indicator ''TGT_315'' [PInf] [Fin 3] = Inr (Plotted p)" by blast
  from h1 h2 c d rest e show ?thesis by simp
qed

text \<open>
  C7 as stated fails in \<open>plot_hit_or_miss.py\<close> on an infinite reference value: no
  position holds two finite values, and the field is compared all the same, with an
  infinite MAE and a NaN mean relative error, and no warning.
\<close>

theorem no_jointly_finite_position_counterexample:
  "list_all2 (\<lambda>a b. \<not> (isfinite a \<and> isfinite b)) [PInf] [Fin 1]
   \<and> compare_indicator ''TGT_115'' [PInf] [Fin 1]
       \<noteq> Inr (NoValidData (''Warning: No valid data for '' @ ''TGT_115''))
   \<and> compare_indicator ''TGT_115'' [PInf] [Fin 1] = Inr (Plotted infinite_reference_plot)
   \<and> hp_mae infinite_reference_plot = PInf
   \<and> isnan (hp_mean_rel_error infinite_reference_plot)"
  using infinite_reference_run by (simp add: infinite_reference_plot_def)

end
